theory Spec2Isabelle
  imports Main
begin

section \<open>The round orchestrator: backend/ai_generator.py\<close>

subsection \<open>Data\<close>

text \<open>
  Tool definitions are Python dictionaries holding JSON-like values; an association
  list stands for a dictionary.
\<close>

datatype json =
    JNull
  | JBool bool
  | JInt int
  | JString string
  | JList "json list"
  | JDict "(string \<times> json) list"

type_synonym tool_definition = "(string \<times> json) list"

text \<open>\<^verbatim>\<open>d.get(k, default)\<close>\<close>

definition dict_get :: "(string \<times> json) list \<Rightarrow> string \<Rightarrow> json \<Rightarrow> json" where
  "dict_get d k dflt = (case map_of d k of None \<Rightarrow> dflt | Some v \<Rightarrow> v)"

text \<open>
  One entry of \<^verbatim>\<open>message.tool_calls\<close>: \<^verbatim>\<open>tool_call.id\<close>,
  \<^verbatim>\<open>tool_call.function.name\<close> and \<^verbatim>\<open>tool_call.function.arguments\<close>
  (the argument payload, JSON encoded as text).
\<close>

record tool_call =
  call_id :: string
  function_name :: string
  function_arguments :: string

text \<open>
  \<^verbatim>\<open>response.choices[0].message\<close>: its \<^verbatim>\<open>content\<close> may be \<^verbatim>\<open>None\<close>, and so
  may its \<^verbatim>\<open>tool_calls\<close>.
\<close>

record chat_message =
  content :: "string option"
  tool_calls :: "tool_call list option"

text \<open>
  A completion, read through \<^verbatim>\<open>response.choices[0]\<close> only, which is all the
  orchestrator reads.
\<close>

record response =
  finish_reason :: string
  message :: chat_message

text \<open>
  An element of the \<^verbatim>\<open>messages\<close> list: a dictionary with a role and a content,
  the dictionary of a tool result (\<^verbatim>\<open>role = "tool"\<close>, the id of the call, the
  content), or a message object of the model appended as it came.
\<close>

datatype chat_entry =
    RoleContent string string
  | ToolResult string string
  | ModelMessage chat_message

text \<open>
  The keyword arguments of \<^verbatim>\<open>client.chat.completions.create\<close>. The keys
  \<^verbatim>\<open>tools\<close> and \<^verbatim>\<open>tool_choice\<close> are absent (\<open>None\<close>) unless set.
\<close>

record request =
  model_param :: string
  temperature :: int
  max_tokens :: int
  messages_param :: "chat_entry list"
  tools_param :: "json list option"
  tool_choice :: "string option"

text \<open>
  The only exception that leaves the orchestrator: one raised by the client's call, or
  the \<^verbatim>\<open>TypeError\<close> of iterating over \<^verbatim>\<open>tool_calls\<close> when it is \<^verbatim>\<open>None\<close>.
\<close>

datatype error =
    ModelTransportFailure string
  | TypeError

text \<open>
  The generator object: its model name, the class constant \<^verbatim>\<open>SYSTEM_PROMPT\<close> and the
  client. The client is external: \<open>create\<close> is \<^verbatim>\<open>self.client.chat.completions.create\<close>,
  a function of the request and of the state \<open>'w\<close> of the world outside (the model's
  service, the tools' stores), which it may change. It returns a response or raises.
\<close>

record 'w ai_generator =
  model :: string
  SYSTEM_PROMPT :: string
  create :: "request \<Rightarrow> 'w \<Rightarrow> (error + response) \<times> 'w"

text \<open>
  \<^verbatim>\<open>tool_manager.execute_tool(name, **kwargs)\<close>: the tool's string, or \<open>Inl\<close> of
  \<^verbatim>\<open>str(e)\<close> when it raises \<^verbatim>\<open>e\<close>. The keyword arguments have type \<open>'k\<close>.
\<close>

type_synonym ('w, 'k) tool_manager = "string \<Rightarrow> 'k \<Rightarrow> 'w \<Rightarrow> (string + string) \<times> 'w"

text \<open>
  Which function of the generator issued a call to the model: \<^verbatim>\<open>_make_api_call\<close>,
  \<^verbatim>\<open>_should_continue_to_next_round\<close> or \<^verbatim>\<open>_get_final_response\<close>.
\<close>

datatype call_site = RoundCall | ContinuationCheck | FinalSynthesis

text \<open>
  What the orchestrator does to the outside, in order: a call to the model with its
  outcome, the start of the loop over a round's tool calls, a call of
  \<^verbatim>\<open>execute_tool\<close> with its outcome. The integer is \<^verbatim>\<open>current_round\<close>.
\<close>

datatype 'k event =
    ModelCall call_site request "error + response"
  | ToolBatch int "tool_call list"
  | ToolExecution int string 'k "string + string"

text \<open>
  The state a query runs in: the \<^verbatim>\<open>messages\<close> list (mutated in place by the
  source), the world outside, and the record of the events so far.
\<close>

record ('w, 'k) run_state =
  messages :: "chat_entry list"
  world :: 'w
  trace :: "'k event list"

subsection \<open>Operations\<close>

text \<open>Python's truth value of an optional string or list: neither \<^verbatim>\<open>None\<close> nor empty.\<close>

definition truthy :: "'a list option \<Rightarrow> bool" where
  "truthy v = (case v of None \<Rightarrow> False | Some xs \<Rightarrow> xs \<noteq> [])"

definition convert_tools_to_openai_format :: "tool_definition list \<Rightarrow> json list" where
  "convert_tools_to_openai_format anthropic_tools =
     map (\<lambda>tool. JDict
       [(''type'', JString ''function''),
        (''function'', JDict
           [(''name'', dict_get tool ''name'' (JString '''')),
            (''description'', dict_get tool ''description'' (JString '''')),
            (''parameters'', dict_get tool ''input_schema'' (JDict []))])])
       anthropic_tools"

text \<open>\<^verbatim>\<open>{**self.base_params, "messages": msgs}\<close>\<close>

definition base_params :: "'w ai_generator \<Rightarrow> chat_entry list \<Rightarrow> request" where
  "base_params self msgs =
     \<lparr>model_param = model self, temperature = 0, max_tokens = 800,
      messages_param = msgs, tools_param = None, tool_choice = None\<rparr>"

text \<open>The client's call, recorded in the trace with the function that issued it.\<close>

definition call_model ::
  "'w ai_generator \<Rightarrow> call_site \<Rightarrow> request \<Rightarrow> ('w, 'k) run_state
    \<Rightarrow> (error + response) \<times> ('w, 'k) run_state" where
  "call_model self site params st =
     (case create self params (world st) of
        (outcome, w') \<Rightarrow>
          (outcome, st\<lparr>world := w', trace := trace st @ [ModelCall site params outcome]\<rparr>))"

text \<open>
  The parameters \<^verbatim>\<open>_make_api_call\<close> builds: \<^verbatim>\<open>if tools:\<close> holds for a list that is
  neither \<^verbatim>\<open>None\<close> nor empty.
\<close>

definition api_params :: "'w ai_generator \<Rightarrow> chat_entry list \<Rightarrow> tool_definition list option \<Rightarrow> request" where
  "api_params self msgs tools =
     (case tools of
        Some (t # ts) \<Rightarrow>
          (base_params self msgs)
            \<lparr>tools_param := Some (convert_tools_to_openai_format (t # ts)),
             tool_choice := Some ''auto''\<rparr>
      | _ \<Rightarrow> base_params self msgs)"

definition make_api_call ::
  "'w ai_generator \<Rightarrow> tool_definition list option \<Rightarrow> ('w, 'k) run_state
    \<Rightarrow> (error + response) \<times> ('w, 'k) run_state" where
  "make_api_call self tools st = call_model self RoundCall (api_params self (messages st) tools) st"

text \<open>\<^verbatim>\<open>_get_final_response\<close>: a call without tools, on the messages and a closing prompt.\<close>

definition final_prompt :: string where
  "final_prompt =
     ''Based on all the information gathered, please provide your final comprehensive answer.''"

definition get_final_response ::
  "'w ai_generator \<Rightarrow> ('w, 'k) run_state \<Rightarrow> (error + string option) \<times> ('w, 'k) run_state" where
  "get_final_response self st =
     (let continuation_messages = messages st @ [RoleContent ''user'' final_prompt];
          final_params = base_params self continuation_messages
      in case call_model self FinalSynthesis final_params st of
           (Inl e, st') \<Rightarrow> (Inl e, st')
         | (Inr final_response, st') \<Rightarrow> (Inr (content (message final_response)), st'))"

text \<open>
  \<^verbatim>\<open>_should_continue_to_next_round\<close>: a call on the messages and a prompt that asks
  whether to go on; when the response requests tools its message is appended to the
  \<^verbatim>\<open>messages\<close> list.
\<close>

definition decision_prompt :: string where
  "decision_prompt =
     ''Based on the information you've gathered, do you have sufficient information to provide a complete answer, or do you need to use additional tools? If you need more information, use the appropriate tools. If you have sufficient information, provide your final comprehensive response.''"

definition should_continue_to_next_round ::
  "'w ai_generator \<Rightarrow> ('w, 'k) run_state
    \<Rightarrow> (error + bool \<times> string option) \<times> ('w, 'k) run_state" where
  "should_continue_to_next_round self st =
     (let decision_messages = messages st @ [RoleContent ''user'' decision_prompt];
          decision_params = base_params self decision_messages
      in case call_model self ContinuationCheck decision_params st of
           (Inl e, st') \<Rightarrow> (Inl e, st')
         | (Inr decision_response, st') \<Rightarrow>
             if finish_reason decision_response = ''tool_calls''
             then (Inr (True, None),
                   st'\<lparr>messages := messages st' @ [ModelMessage (message decision_response)]\<rparr>)
             else (Inr (False, content (message decision_response)), st'))"

text \<open>
  The loop over the tool calls of a round. \<open>loads\<close> is
  \<^verbatim>\<open>**json.loads(tool_call.function.arguments)\<close>: the keyword arguments, or \<open>Inl\<close> of
  \<^verbatim>\<open>str(e)\<close> when parsing or unpacking raises \<^verbatim>\<open>e\<close>; it is evaluated before
  \<^verbatim>\<open>execute_tool\<close> is called. Every exception is caught inside the loop.
\<close>

fun execute_tool_calls ::
  "(string \<Rightarrow> string + 'k) \<Rightarrow> ('w, 'k) tool_manager \<Rightarrow> int \<Rightarrow> tool_call list
    \<Rightarrow> ('w, 'k) run_state \<Rightarrow> ('w, 'k) run_state" where
  "execute_tool_calls loads tool_manager current_round [] st = st"
| "execute_tool_calls loads tool_manager current_round (tc # tcs) st =
     (case loads (function_arguments tc) of
        Inl e \<Rightarrow>
          execute_tool_calls loads tool_manager current_round tcs
            (st\<lparr>messages := messages st @
                 [ToolResult (call_id tc) (''Tool execution failed: '' @ e)]\<rparr>)
      | Inr kwargs \<Rightarrow>
          (case tool_manager (function_name tc) kwargs (world st) of
             (Inl e, w') \<Rightarrow>
               execute_tool_calls loads tool_manager current_round tcs
                 (st\<lparr>messages := messages st @
                      [ToolResult (call_id tc) (''Tool execution failed: '' @ e)],
                    world := w',
                    trace := trace st @
                      [ToolExecution current_round (function_name tc) kwargs (Inl e)]\<rparr>)
           | (Inr tool_result, w') \<Rightarrow>
               execute_tool_calls loads tool_manager current_round tcs
                 (st\<lparr>messages := messages st @ [ToolResult (call_id tc) tool_result],
                    world := w',
                    trace := trace st @
                      [ToolExecution current_round (function_name tc) kwargs (Inr tool_result)]\<rparr>)))"

text \<open>
  \<^verbatim>\<open>_handle_tool_execution_round\<close>. Iterating over \<^verbatim>\<open>tool_calls\<close> when it is
  \<^verbatim>\<open>None\<close> raises, after the message was appended. The start of the loop is recorded
  in the trace.
\<close>

definition handle_tool_execution_round ::
  "'w ai_generator \<Rightarrow> (string \<Rightarrow> string + 'k) \<Rightarrow> response \<Rightarrow> ('w, 'k) tool_manager
    \<Rightarrow> int \<Rightarrow> int \<Rightarrow> ('w, 'k) run_state
    \<Rightarrow> (error + bool \<times> string option) \<times> ('w, 'k) run_state" where
  "handle_tool_execution_round self loads response tool_manager current_round max_rounds st =
     (let st1 = st\<lparr>messages := messages st @ [ModelMessage (message response)]\<rparr>
      in case tool_calls (message response) of
           None \<Rightarrow> (Inl TypeError, st1)
         | Some tcs \<Rightarrow>
             (let st2 = execute_tool_calls loads tool_manager current_round tcs
                          (st1\<lparr>trace := trace st1 @ [ToolBatch current_round tcs]\<rparr>)
              in if current_round \<ge> max_rounds
                 then (Inr (False, None), st2)
                 else should_continue_to_next_round self st2))"

text \<open>
  The loop \<^verbatim>\<open>for round_num in range(max_rounds)\<close> of \<^verbatim>\<open>generate_response\<close>, from
  \<open>round_num\<close> on, with the fallback after it. The \<^verbatim>\<open>tool_manager\<close> argument is
  \<^verbatim>\<open>None\<close> or a tool manager, which counts as true.
\<close>

function round_loop ::
  "'w ai_generator \<Rightarrow> (string \<Rightarrow> string + 'k) \<Rightarrow> tool_definition list option
    \<Rightarrow> ('w, 'k) tool_manager option \<Rightarrow> int \<Rightarrow> int \<Rightarrow> ('w, 'k) run_state
    \<Rightarrow> (error + string option) \<times> ('w, 'k) run_state" where
  "round_loop self loads tools tool_manager max_rounds round_num st =
     (if round_num < max_rounds then
        (case make_api_call self tools st of
           (Inl e, st1) \<Rightarrow> (Inl e, st1)
         | (Inr response, st1) \<Rightarrow>
             (case (finish_reason response = ''tool_calls'', tool_manager) of
                (True, Some manager) \<Rightarrow>
                  (case handle_tool_execution_round self loads response manager
                          (round_num + 1) max_rounds st1 of
                     (Inl e, st2) \<Rightarrow> (Inl e, st2)
                   | (Inr (should_continue, final_response), st2) \<Rightarrow>
                       if \<not> should_continue
                       then (if truthy final_response
                             then (Inr final_response, st2)
                             else get_final_response self st2)
                       else if round_num + 1 \<ge> max_rounds
                       then get_final_response self st2
                       else round_loop self loads tools tool_manager max_rounds
                              (round_num + 1) st2)
              | _ \<Rightarrow> (Inr (content (message response)), st1)))
      else get_final_response self st)"
  by pat_completeness auto
termination
  by (relation "measure (\<lambda>(self, loads, tools, tool_manager, max_rounds, round_num, st).
                  nat (max_rounds - round_num))") auto

declare round_loop.simps [simp del]

text \<open>
  \<^verbatim>\<open>generate_response\<close>, run in the world \<open>w\<close>: the answer or the exception, and the
  final state with the trace of the query.
\<close>

definition generate_response ::
  "'w ai_generator \<Rightarrow> (string \<Rightarrow> string + 'k) \<Rightarrow> string \<Rightarrow> string option
    \<Rightarrow> tool_definition list option \<Rightarrow> ('w, 'k) tool_manager option \<Rightarrow> int \<Rightarrow> 'w
    \<Rightarrow> (error + string option) \<times> ('w, 'k) run_state" where
  "generate_response self loads query conversation_history tools tool_manager max_rounds w =
     (let system_content =
            (case conversation_history of
               Some (c # cs) \<Rightarrow>
                 SYSTEM_PROMPT self @ [CHR 0x0A, CHR 0x0A] @ ''Previous conversation:'' @
                 [CHR 0x0A] @ (c # cs)
             | _ \<Rightarrow> SYSTEM_PROMPT self);
          msgs = [RoleContent ''system'' system_content, RoleContent ''user'' query]
      in round_loop self loads tools tool_manager max_rounds 0
           \<lparr>messages = msgs, world = w, trace = []\<rparr>)"

subsection \<open>Notions used to state the properties\<close>

text \<open>
  What each requested call comes to, in the order requested and each in the world the
  calls before it left: \<open>Inl\<close> of the cause when the payload does not parse or the
  tool raises, \<open>Inr\<close> of the tool's string otherwise. Then the calls of
  \<^verbatim>\<open>execute_tool\<close> that the loop makes, and the content of the tool result written
  for an outcome.
\<close>

fun tool_outcomes ::
  "(string \<Rightarrow> string + 'k) \<Rightarrow> ('w, 'k) tool_manager \<Rightarrow> tool_call list \<Rightarrow> 'w
    \<Rightarrow> (string + string) list" where
  "tool_outcomes loads tool_manager [] w = []"
| "tool_outcomes loads tool_manager (tc # tcs) w =
     (case loads (function_arguments tc) of
        Inl e \<Rightarrow> Inl e # tool_outcomes loads tool_manager tcs w
      | Inr kwargs \<Rightarrow>
          (case tool_manager (function_name tc) kwargs w of
             (outcome, w') \<Rightarrow> outcome # tool_outcomes loads tool_manager tcs w'))"

fun tool_executions ::
  "(string \<Rightarrow> string + 'k) \<Rightarrow> ('w, 'k) tool_manager \<Rightarrow> int \<Rightarrow> tool_call list \<Rightarrow> 'w
    \<Rightarrow> 'k event list" where
  "tool_executions loads tool_manager r [] w = []"
| "tool_executions loads tool_manager r (tc # tcs) w =
     (case loads (function_arguments tc) of
        Inl e \<Rightarrow> tool_executions loads tool_manager r tcs w
      | Inr kwargs \<Rightarrow>
          (case tool_manager (function_name tc) kwargs w of
             (outcome, w') \<Rightarrow>
               ToolExecution r (function_name tc) kwargs outcome
                 # tool_executions loads tool_manager r tcs w'))"

definition result_content :: "string + string \<Rightarrow> string" where
  "result_content outcome =
     (case outcome of Inl e \<Rightarrow> ''Tool execution failed: '' @ e | Inr s \<Rightarrow> s)"

text \<open>
  The states along one iteration of the loop: after a call to the model (the world it
  left, the event added), after the call of the round, after the tool loop of the round,
  after the continuation check; the requests of the final synthesis and of the
  continuation check; the result of a final synthesis.
\<close>

definition logged :: "('w, 'k) run_state \<Rightarrow> 'w \<Rightarrow> 'k event \<Rightarrow> ('w, 'k) run_state" where
  "logged st w' ev = st\<lparr>world := w', trace := trace st @ [ev]\<rparr>"

definition final_request :: "'w ai_generator \<Rightarrow> chat_entry list \<Rightarrow> request" where
  "final_request self msgs = base_params self (msgs @ [RoleContent ''user'' final_prompt])"

definition decision_request :: "'w ai_generator \<Rightarrow> chat_entry list \<Rightarrow> request" where
  "decision_request self msgs = base_params self (msgs @ [RoleContent ''user'' decision_prompt])"

definition final_result ::
  "'w ai_generator \<Rightarrow> ('w, 'k) run_state \<Rightarrow> error + response \<Rightarrow> 'w
    \<Rightarrow> (error + string option) \<times> ('w, 'k) run_state" where
  "final_result self st out w' =
     (case out of Inl e \<Rightarrow> Inl e | Inr r \<Rightarrow> Inr (content (message r)),
      logged st w' (ModelCall FinalSynthesis (final_request self (messages st)) out))"

definition after_round_call ::
  "'w ai_generator \<Rightarrow> tool_definition list option \<Rightarrow> ('w, 'k) run_state \<Rightarrow> error + response
    \<Rightarrow> 'w \<Rightarrow> ('w, 'k) run_state" where
  "after_round_call self tools st out w' =
     logged st w' (ModelCall RoundCall (api_params self (messages st) tools) out)"

definition after_tools ::
  "(string \<Rightarrow> string + 'k) \<Rightarrow> ('w, 'k) tool_manager \<Rightarrow> int \<Rightarrow> response \<Rightarrow> tool_call list
    \<Rightarrow> ('w, 'k) run_state \<Rightarrow> ('w, 'k) run_state" where
  "after_tools loads m r resp tcs st =
     execute_tool_calls loads m r tcs
       (st\<lparr>messages := messages st @ [ModelMessage (message resp)],
          trace := trace st @ [ToolBatch r tcs]\<rparr>)"

definition after_decision ::
  "'w ai_generator \<Rightarrow> ('w, 'k) run_state \<Rightarrow> error + response \<Rightarrow> 'w \<Rightarrow> ('w, 'k) run_state" where
  "after_decision self st out w' =
     logged st w' (ModelCall ContinuationCheck (decision_request self (messages st)) out)"

text \<open>
  The rounds whose loop over the tool calls was entered, and the rounds in which
  \<^verbatim>\<open>execute_tool\<close> was called, each in the order of the trace.
\<close>

fun batch_round :: "'k event \<Rightarrow> int option" where
  "batch_round (ToolBatch r tcs) = Some r"
| "batch_round _ = None"

fun execution_round :: "'k event \<Rightarrow> int option" where
  "execution_round (ToolExecution r name kwargs outcome) = Some r"
| "execution_round _ = None"

definition batch_rounds :: "'k event list \<Rightarrow> int list" where
  "batch_rounds tr = List.map_filter batch_round tr"

definition execution_rounds :: "'k event list \<Rightarrow> int list" where
  "execution_rounds tr = List.map_filter execution_round tr"

text \<open>
  What the loop adds to the trace from \<open>round_num = rn\<close> on: the tool loops of the
  rounds \<open>rn + 1\<close> to some \<open>j\<close>, one after the other, where \<open>j\<close> does not exceed
  \<open>max_rounds\<close>; and tools are executed in these rounds only.
\<close>

definition rounds_within ::
  "int \<Rightarrow> int \<Rightarrow> ('w, 'k) run_state \<Rightarrow> (error + string option) \<times> ('w, 'k) run_state \<Rightarrow> bool" where
  "rounds_within N rn st out =
     (\<exists>j. rn \<le> j \<and> (j = rn \<or> j \<le> N) \<and>
          batch_rounds (trace (snd out)) = batch_rounds (trace st) @ [rn + 1..j] \<and>
          set (execution_rounds (trace (snd out)))
            \<subseteq> set (execution_rounds (trace st)) \<union> {rn + 1..j})"

text \<open>
  A client that never raises, and whose responses carry a list of tool calls whenever
  their finish reason announces one.
\<close>

definition client_responds :: "'w ai_generator \<Rightarrow> bool" where
  "client_responds self =
     (\<forall>req w. \<exists>r w'. create self req w = (Inr r, w') \<and>
        (finish_reason r = ''tool_calls'' \<longrightarrow> tool_calls (message r) \<noteq> None))"

text \<open>
  The query returns an answer, and it is the content of the response to the last call
  made to the model.
\<close>

definition answers_with_last_response ::
  "(error + string option) \<times> ('w, 'k) run_state \<Rightarrow> bool" where
  "answers_with_last_response out =
     (\<exists>site req r. fst out = Inr (content (message r)) \<and> trace (snd out) \<noteq> [] \<and>
        last (trace (snd out)) = ModelCall site req (Inr r))"

text \<open>A model that requests a tool in every response, and a tool manager that succeeds.\<close>

definition insistent_create :: "request \<Rightarrow> unit \<Rightarrow> (error + response) \<times> unit" where
  "insistent_create req w =
     (Inr \<lparr>finish_reason = ''tool_calls'',
           message = \<lparr>content = Some ''Searching'',
                      tool_calls = Some [\<lparr>call_id = ''call_1'',
                                          function_name = ''search_course_content'',
                                          function_arguments = ''{}''\<rparr>]\<rparr>\<rparr>, w)"

definition insistent_generator :: "unit ai_generator" where
  "insistent_generator = \<lparr>model = ''gpt-5'', SYSTEM_PROMPT = ''prompt'', create = insistent_create\<rparr>"

definition plain_tool_manager :: "('w, string) tool_manager" where
  "plain_tool_manager name kwargs w = (Inr ''Tool result'', w)"

text \<open>The \<^verbatim>\<open>messages\<close> list \<^verbatim>\<open>generate_response\<close> starts from.\<close>

definition initial_messages :: "'w ai_generator \<Rightarrow> string \<Rightarrow> string option \<Rightarrow> chat_entry list" where
  "initial_messages self query conversation_history =
     [RoleContent ''system''
        (case conversation_history of
           Some (c # cs) \<Rightarrow>
             SYSTEM_PROMPT self @ [CHR 0x0A, CHR 0x0A] @ ''Previous conversation:'' @
             [CHR 0x0A] @ (c # cs)
         | _ \<Rightarrow> SYSTEM_PROMPT self),
      RoleContent ''user'' query]"

text \<open>
  The response of a round's call that requests no tools, and the text a response
  carries.
\<close>

fun direct_answer :: "'k event \<Rightarrow> bool" where
  "direct_answer (ModelCall RoundCall req (Inr r)) = (finish_reason r \<noteq> ''tool_calls'')"
| "direct_answer _ = False"

fun response_text :: "'k event \<Rightarrow> string option" where
  "response_text (ModelCall site req (Inr r)) = content (message r)"
| "response_text _ = None"

definition ends_at_direct_answer ::
  "('w, 'k) run_state \<Rightarrow> (error + string option) \<times> ('w, 'k) run_state \<Rightarrow> bool" where
  "ends_at_direct_answer st out =
     (\<exists>evs. evs \<noteq> [] \<and> trace (snd out) = trace st @ evs \<and>
        filter direct_answer (butlast evs) = [] \<and>
        (direct_answer (last evs) \<longrightarrow> fst out = Inr (response_text (last evs))))"

text \<open>
  A client that answers from a script, one response per call whatever the request (as
  the \<^verbatim>\<open>side_effect\<close> lists of the tests do), and raises when the script is over.
\<close>

definition scripted_create :: "request \<Rightarrow> response list \<Rightarrow> (error + response) \<times> response list" where
  "scripted_create req script =
     (case script of
        [] \<Rightarrow> (Inl (ModelTransportFailure ''StopIteration''), [])
      | r # rs \<Rightarrow> (Inr r, rs))"

definition scripted_generator :: "response list ai_generator" where
  "scripted_generator =
     \<lparr>model = ''gpt-5'', SYSTEM_PROMPT = ''prompt'', create = scripted_create\<rparr>"

definition text_response :: "string option \<Rightarrow> response" where
  "text_response c = \<lparr>finish_reason = ''stop'', message = \<lparr>content = c, tool_calls = None\<rparr>\<rparr>"

definition tool_request :: "tool_call list \<Rightarrow> response" where
  "tool_request tcs =
     \<lparr>finish_reason = ''tool_calls'', message = \<lparr>content = None, tool_calls = Some tcs\<rparr>\<rparr>"

definition search_tool :: tool_definition where
  "search_tool =
     [(''name'', JString ''search_course_content''),
      (''description'', JString ''Search for course content'')]"

text \<open>The id a tool result answers, and the tool an execution ran.\<close>

fun answered_call_id :: "chat_entry \<Rightarrow> string option" where
  "answered_call_id (ToolResult tool_call_id c) = Some tool_call_id"
| "answered_call_id _ = None"

fun executed_tool :: "'k event \<Rightarrow> string option" where
  "executed_tool (ToolExecution r name kwargs outcome) = Some name"
| "executed_tool _ = None"

text \<open>
  A parser that rejects the payload \<^verbatim>\<open>{query: incomplete\<close> with the message of
  \<^verbatim>\<open>json.loads\<close> for it and passes the others on, a tool manager whose outline tool
  raises, and three tool calls: one whose arguments do not parse, one whose tool raises,
  one that succeeds.
\<close>

definition strict_loads :: "string \<Rightarrow> string + string" where
  "strict_loads s =
     (if s = ''{query: incomplete''
      then Inl ''Expecting property name enclosed in double quotes: line 1 column 2 (char 1)''
      else Inr s)"

definition failing_tool_manager :: "('w, string) tool_manager" where
  "failing_tool_manager name kwargs w =
     (if name = ''get_course_outline'' then (Inl ''outline unavailable'', w)
      else (Inr ''Tool result'', w))"

definition three_calls :: "tool_call list" where
  "three_calls =
     [\<lparr>call_id = ''call_1'', function_name = ''search_course_content'',
       function_arguments = ''{query: incomplete''\<rparr>,
      \<lparr>call_id = ''call_2'', function_name = ''get_course_outline'',
       function_arguments = ''{}''\<rparr>,
      \<lparr>call_id = ''call_3'', function_name = ''search_course_content'',
       function_arguments = ''{}''\<rparr>]"

text \<open>What the calls made to the model advertise, call by call.\<close>

fun advertised_tools :: "'k event \<Rightarrow> (call_site \<times> json list option) option" where
  "advertised_tools (ModelCall site req outcome) = Some (site, tools_param req)"
| "advertised_tools _ = None"

text \<open>
  A continuation check whose response requests tools; a call of a round made with
  given parameters.
\<close>

fun continues :: "'k event \<Rightarrow> bool" where
  "continues (ModelCall ContinuationCheck req (Inr d)) = (finish_reason d = ''tool_calls'')"
| "continues _ = False"

fun round_call_with :: "request \<Rightarrow> 'k event \<Rightarrow> bool" where
  "round_call_with params (ModelCall RoundCall req outcome) = (req = params)"
| "round_call_with params _ = False"

text \<open>
  What the code does after a continuation check that requests tools: the next event is
  a fresh call of the next round, made with the tools, on the history the check saw
  (its request without the prompt at the end) followed by the message of the check's
  response.
\<close>

fun fresh_call_after ::
  "'w ai_generator \<Rightarrow> tool_definition list option \<Rightarrow> 'k event \<Rightarrow> 'k event \<Rightarrow> bool" where
  "fresh_call_after self tools (ModelCall ContinuationCheck req (Inr d)) next_event =
     (if finish_reason d = ''tool_calls''
      then round_call_with
             (api_params self (butlast (messages_param req) @ [ModelMessage (message d)]) tools)
             next_event
      else True)"
| "fresh_call_after self tools _ next_event = True"

text \<open>
  A tool loop only follows the response of a round's call, and runs the calls of that
  response.
\<close>

fun batch_from_round_call :: "'k event \<Rightarrow> 'k event \<Rightarrow> bool" where
  "batch_from_round_call (ModelCall RoundCall req (Inr resp)) (ToolBatch r tcs) =
     (finish_reason resp = ''tool_calls'' \<and> tool_calls (message resp) = Some tcs)"
| "batch_from_round_call _ (ToolBatch r tcs) = False"
| "batch_from_round_call _ _ = True"

text \<open>
  The transition as the specification words it: after a continuation check that
  requests tools, the calls it requested are executed directly, with no call to the
  model between.
\<close>

fun executed_directly_after :: "'k event \<Rightarrow> 'k event \<Rightarrow> bool" where
  "executed_directly_after (ModelCall ContinuationCheck req (Inr d)) (ToolBatch r tcs) =
     (finish_reason d \<noteq> ''tool_calls'' \<or> tool_calls (message d) = Some tcs)"
| "executed_directly_after (ModelCall ContinuationCheck req (Inr d)) _ =
     (finish_reason d \<noteq> ''tool_calls'')"
| "executed_directly_after _ _ = True"

definition request_carried_over :: "'k event list \<Rightarrow> bool" where
  "request_carried_over tr = successively executed_directly_after tr"

text \<open>
  The state at the head of the loop: the trace is well formed so far, and a continuation
  check that asked to go on, when it is the last event, is about to be followed by the
  call of the next round.
\<close>

definition fresh_calls_so_far ::
  "'w ai_generator \<Rightarrow> tool_definition list option \<Rightarrow> int \<Rightarrow> int \<Rightarrow> ('w, 'k) run_state \<Rightarrow> bool" where
  "fresh_calls_so_far self tools N rn st =
     (successively (fresh_call_after self tools) (trace st) \<and>
      successively batch_from_round_call (trace st) \<and>
      (trace st = [] \<or> \<not> continues (last (trace st)) \<or>
       (rn < N \<and> fresh_call_after self tools (last (trace st))
          (ModelCall RoundCall (api_params self (messages st) tools) (Inl TypeError)))))"

definition fresh_calls_throughout ::
  "'w ai_generator \<Rightarrow> tool_definition list option \<Rightarrow> 'k event list \<Rightarrow> bool" where
  "fresh_calls_throughout self tools tr =
     (successively (fresh_call_after self tools) tr \<and>
      successively batch_from_round_call tr \<and>
      tr \<noteq> [] \<and> \<not> continues (last tr))"

text \<open>
  A query in which the continuation check of the first round requests another tool:
  the outline is fetched in round one, the check asks for a search, and the call of
  round two answers with a text.
\<close>

definition outline_call :: tool_call where
  "outline_call =
     \<lparr>call_id = ''call_1'', function_name = ''get_course_outline'',
      function_arguments = ''{}''\<rparr>"

definition search_call :: tool_call where
  "search_call =
     \<lparr>call_id = ''call_2'', function_name = ''search_course_content'',
      function_arguments = ''{}''\<rparr>"

definition two_round_script :: "response list" where
  "two_round_script =
     [tool_request [outline_call], tool_request [search_call], text_response (Some ''Answer'')]"

text \<open>
  A final-synthesis call; a continuation check whose response requests no tools and
  carries no text; any call to the model.
\<close>

fun is_final_synthesis :: "'k event \<Rightarrow> bool" where
  "is_final_synthesis (ModelCall FinalSynthesis req outcome) = True"
| "is_final_synthesis _ = False"

fun empty_answer_check :: "'k event \<Rightarrow> bool" where
  "empty_answer_check (ModelCall ContinuationCheck req (Inr d)) =
     (finish_reason d \<noteq> ''tool_calls'' \<and> \<not> truthy (content (message d)))"
| "empty_answer_check _ = False"

fun is_model_call :: "'k event \<Rightarrow> bool" where
  "is_model_call (ModelCall site req outcome) = True"
| "is_model_call _ = False"

text \<open>
  The specification's statement: a final-synthesis call is made exactly when the tools
  of round \<open>N\<close> have been executed.
\<close>

definition final_synthesis_exactly_at_limit :: "int \<Rightarrow> 'k event list \<Rightarrow> bool" where
  "final_synthesis_exactly_at_limit N tr =
     (list_ex is_final_synthesis tr = (N \<in> set (batch_rounds tr)))"

text \<open>
  The query ends with the tool loop of round \<open>N\<close> followed, with no call to the model
  between, by the final-synthesis call: made on the whole history with the closing
  prompt, without tools (\<open>base_params\<close> sets none), and its response is the answer.
\<close>

definition forced_synthesis_ends ::
  "'w ai_generator \<Rightarrow> int \<Rightarrow> (error + string option) \<times> ('w, 'k) run_state \<Rightarrow> bool" where
  "forced_synthesis_ends self N out =
     (\<exists>before tcs execs outcome.
        trace (snd out) =
          before @ ToolBatch N tcs # execs @
          [ModelCall FinalSynthesis
             (base_params self (messages (snd out) @ [RoleContent ''user'' final_prompt]))
             outcome] \<and>
        filter is_model_call execs = [] \<and>
        fst out = (case outcome of Inl e \<Rightarrow> Inl e | Inr r \<Rightarrow> Inr (content (message r))))"

definition no_synthesis_yet :: "int \<Rightarrow> int \<Rightarrow> ('w, 'k) run_state \<Rightarrow> bool" where
  "no_synthesis_yet N rn st =
     (rn < N \<and> \<not> list_ex is_final_synthesis (trace st) \<and> N \<notin> set (batch_rounds (trace st)) \<and>
      \<not> list_ex empty_answer_check (trace st))"

definition synthesis_accounted ::
  "'w ai_generator \<Rightarrow> int \<Rightarrow> (error + string option) \<times> ('w, 'k) run_state \<Rightarrow> bool" where
  "synthesis_accounted self N out =
     ((list_ex is_final_synthesis (trace (snd out)) =
        (N \<in> set (batch_rounds (trace (snd out))) \<or>
         list_ex empty_answer_check (trace (snd out)))) \<and>
      (N \<in> set (batch_rounds (trace (snd out))) \<longrightarrow> forced_synthesis_ends self N out))"

text \<open>
  Two queries with two rounds allowed. In the first the model asks for a tool at every
  call, so the tools of round two are executed and the synthesis is forced. In the
  second the continuation check of round one answers with no text.
\<close>

definition limit_script :: "response list" where
  "limit_script =
     [tool_request [outline_call], tool_request [search_call], tool_request [search_call],
      text_response (Some ''Synthesis'')]"

definition empty_answer_script :: "response list" where
  "empty_answer_script =
     [tool_request [outline_call], text_response None, text_response (Some ''Synthesis'')]"

text \<open>
  The ids of the tool calls that the messages of the model in a conversation request,
  in order; and the statement of the specification: every request has its tool result,
  one for one, in the order requested.
\<close>

fun requested_ids :: "chat_entry \<Rightarrow> string list" where
  "requested_ids (ModelMessage m) =
     (case tool_calls m of None \<Rightarrow> [] | Some tcs \<Rightarrow> map call_id tcs)"
| "requested_ids _ = []"

definition every_request_answered :: "chat_entry list \<Rightarrow> bool" where
  "every_request_answered msgs =
     (List.map_filter answered_call_id msgs = concat (map requested_ids msgs))"

text \<open>The calls of the tool loops of a trace, in order.\<close>

fun batch_calls :: "'k event \<Rightarrow> tool_call list" where
  "batch_calls (ToolBatch r tcs) = tcs"
| "batch_calls _ = []"

definition dispatched_calls :: "'k event list \<Rightarrow> tool_call list" where
  "dispatched_calls tr = concat (map batch_calls tr)"

text \<open>
  A response to a round's call that requests tools while a tool manager is supplied,
  and what follows it: the tool loop over the calls of that response.
\<close>

fun requests_tools :: "bool \<Rightarrow> 'k event \<Rightarrow> bool" where
  "requests_tools supplied (ModelCall RoundCall req (Inr r)) =
     (finish_reason r = ''tool_calls'' \<and> supplied)"
| "requests_tools supplied _ = False"

fun loop_over :: "tool_call list option \<Rightarrow> 'k event \<Rightarrow> bool" where
  "loop_over calls (ToolBatch r tcs) = (calls = Some tcs)"
| "loop_over calls _ = False"

fun dispatched_after :: "bool \<Rightarrow> 'k event \<Rightarrow> 'k event \<Rightarrow> bool" where
  "dispatched_after supplied (ModelCall RoundCall req (Inr r)) next_event =
     (if finish_reason r = ''tool_calls'' \<and> supplied
      then loop_over (tool_calls (message r)) next_event
      else True)"
| "dispatched_after supplied _ next_event = True"

text \<open>
  The exceptions a query can end with come from the model: a call to it raised, or
  the response of a round announced tool calls and carried none.
\<close>

fun raised_by_model :: "error \<Rightarrow> 'k event \<Rightarrow> bool" where
  "raised_by_model e (ModelCall site req (Inl e')) = (e = e')"
| "raised_by_model e (ModelCall RoundCall req (Inr r)) =
     (e = TypeError \<and> finish_reason r = ''tool_calls'' \<and> tool_calls (message r) = None)"
| "raised_by_model e _ = False"

definition fails_by_model_only ::
  "(error + string option) \<times> ('w, 'k) run_state \<Rightarrow> bool" where
  "fails_by_model_only out =
     (case fst out of
        Inl e \<Rightarrow> trace (snd out) \<noteq> [] \<and> raised_by_model e (last (trace (snd out)))
      | Inr answer \<Rightarrow> True)"

text \<open>
  A round, seen from the head of the loop: when the response to the round's call
  requests tools, a tool manager is supplied and the response carries its calls, the
  trace goes on with that call, the tool loop of the round, the executions of the calls
  that parse, and then a further call to the model; and the conversation goes on with
  the message of the response and one tool result for each call, in order.
\<close>

definition handled_round ::
  "'w ai_generator \<Rightarrow> (string \<Rightarrow> string + 'k) \<Rightarrow> tool_definition list option
    \<Rightarrow> ('w, 'k) tool_manager option \<Rightarrow> int \<Rightarrow> int \<Rightarrow> ('w, 'k) run_state
    \<Rightarrow> (error + string option) \<times> ('w, 'k) run_state \<Rightarrow> bool" where
  "handled_round self loads tools tm N rn st out =
     (\<forall>r w1 m tcs.
        rn < N \<and>
        create self (api_params self (messages st) tools) (world st) = (Inr r, w1) \<and>
        finish_reason r = ''tool_calls'' \<and> tm = Some m \<and>
        tool_calls (message r) = Some tcs
        \<longrightarrow> (\<exists>e rest more.
              is_model_call e \<and>
              trace (snd out) =
                trace st @
                ModelCall RoundCall (api_params self (messages st) tools) (Inr r) #
                ToolBatch (rn + 1) tcs #
                tool_executions loads m (rn + 1) tcs w1 @ e # rest \<and>
              messages (snd out) =
                messages st @
                ModelMessage (message r) #
                map (\<lambda>(tc, outcome). ToolResult (call_id tc) (result_content outcome))
                  (zip tcs (tool_outcomes loads m tcs w1)) @ more))"

definition dispatched_so_far :: "bool \<Rightarrow> ('w, 'k) run_state \<Rightarrow> bool" where
  "dispatched_so_far supplied st =
     (successively (dispatched_after supplied) (trace st) \<and>
      (trace st = [] \<or> \<not> requests_tools supplied (last (trace st))))"

text \<open>
  A query whose first response requests the three calls above and whose continuation
  check answers with a text.
\<close>

definition mixed_script :: "response list" where
  "mixed_script = [tool_request three_calls, text_response (Some ''Answer'')]"

section \<open>The retrieval engine: backend/vector_store.py and backend/search_tools.py\<close>

text \<open>
  Neither file is among the sources at hand; only their tests are. The definitions
  of this section follow the specification (sections 3, 4.2 to 4.5 and 6).
\<close>

text \<open>
  Modelled from the spec: the RetrievalFilter that \<^verbatim>\<open>VectorStore._build_filter\<close> returns
  (vector_store.py is missing). Section 3: a predicate tree over two optional fields,
  exact course title and exact lesson number, combined by AND when both are present.
\<close>

datatype retrieval_filter =
    CourseTitle string
  | LessonNumber int
  | AndFilter "retrieval_filter list"

text \<open>
  Modelled from the spec: \<^verbatim>\<open>VectorStore._build_filter\<close> (vector_store.py is missing).
  Section 4.2: neither present, the empty filter (here \<open>None\<close>, as the test expects);
  only the course title, the equality on the title; only the lesson number, the
  equality on the number; both, the conjunction of the two.
\<close>

definition build_filter :: "string option \<Rightarrow> int option \<Rightarrow> retrieval_filter option" where
  "build_filter course_title lesson_number =
     (case (course_title, lesson_number) of
        (None, None) \<Rightarrow> None
      | (Some c, None) \<Rightarrow> Some (CourseTitle c)
      | (None, Some n) \<Rightarrow> Some (LessonNumber n)
      | (Some c, Some n) \<Rightarrow> Some (AndFilter [CourseTitle c, LessonNumber n]))"

text \<open>
  Modelled from the spec: the metadata of a chunk and the SearchResultSet of
  vector_store.py (missing). Section 3: documents, metadata and distances of equal
  length, best match first, and an optional error; a result set is empty when it has
  no document, whether or not an error is set. Distances have type \<open>'d\<close>. The fields
  of the metadata are the keys \<^verbatim>\<open>course_title\<close> and \<^verbatim>\<open>lesson_number\<close>.
\<close>

record chunk_metadata =
  meta_course_title :: string
  meta_lesson_number :: "int option"

record 'd search_results =
  documents :: "string list"
  metadata :: "chunk_metadata list"
  distances :: "'d list"
  error :: "string option"

definition empty_results :: "string option \<Rightarrow> 'd search_results" where
  "empty_results err = \<lparr>documents = [], metadata = [], distances = [], error = err\<rparr>"

definition is_empty :: "'d search_results \<Rightarrow> bool" where
  "is_empty results = (documents results = [])"

text \<open>
  Modelled from the spec: the Course Resolver of vector_store.py (missing). Section
  4.3: the catalog is asked for the nearest neighbour of the name; when it has no entry
  or returns none, the resolver fails with \<^verbatim>\<open>No course found matching '<name>'\<close>;
  any entry returned is accepted. The catalog lookup (section 6: a text to the nearest
  title, or nothing) is a parameter.
\<close>

definition resolve_course_name :: "(string \<Rightarrow> string option) \<Rightarrow> string \<Rightarrow> string + string" where
  "resolve_course_name catalog name =
     (case catalog name of
        None \<Rightarrow> Inl (''No course found matching '' @ [CHR 0x27] @ name @ [CHR 0x27])
      | Some title \<Rightarrow> Inr title)"

text \<open>
  A query sent to the content index: the text, the filter, the number of results
  asked for.
\<close>

record content_query =
  query_text :: string
  where_filter :: "retrieval_filter option"
  n_results :: nat

text \<open>
  Modelled from the spec: \<^verbatim>\<open>VectorStore.search\<close> (vector_store.py is missing). Section
  4.4: a course name that is given is resolved, and when that fails the result is an
  empty result set whose error is the resolver's message, without a query to the
  content index; otherwise the filter is built from the resolved title and the lesson
  number, the content index is asked for the \<open>k\<close> nearest documents, returned in the
  index's order; an exception of the index becomes an empty result set with the error
  \<^verbatim>\<open>Search error: <cause>\<close>. The content index is a parameter (\<open>Inl\<close> of the cause
  when it raises). The second component lists the queries sent to it.
\<close>

definition search ::
  "(string \<Rightarrow> string option)
    \<Rightarrow> (content_query \<Rightarrow> string + (string \<times> chunk_metadata \<times> 'd) list) \<Rightarrow> nat
    \<Rightarrow> string \<Rightarrow> string option \<Rightarrow> int option
    \<Rightarrow> 'd search_results \<times> content_query list" where
  "search catalog content_index k query course_name lesson_number =
     (case (case course_name of
              None \<Rightarrow> Inr None
            | Some name \<Rightarrow> map_sum id Some (resolve_course_name catalog name)) of
        Inl failure \<Rightarrow> (empty_results (Some failure), [])
      | Inr title \<Rightarrow>
          (let q = \<lparr>query_text = query, where_filter = build_filter title lesson_number,
                    n_results = k\<rparr>
           in case content_index q of
                Inl cause \<Rightarrow> (empty_results (Some (''Search error: '' @ cause)), [q])
              | Inr hits \<Rightarrow>
                  (\<lparr>documents = map fst hits, metadata = map (fst \<circ> snd) hits,
                    distances = map (snd \<circ> snd) hits, error = None\<rparr>, [q])))"

text \<open>
  Modelled from the spec: the decimal numeral of a lesson number, as Python's string
  formatting writes it.
\<close>

definition digit_char :: "nat \<Rightarrow> char" where
  "digit_char d = ''0123456789'' ! (d mod 10)"

function decimal_digits :: "nat \<Rightarrow> string \<Rightarrow> string" where
  "decimal_digits n acc =
     (if n < 10 then digit_char n # acc
      else decimal_digits (n div 10) (digit_char n # acc))"
  by pat_completeness auto
termination
  by (relation "measure fst") auto

declare decimal_digits.simps [simp del]

definition py_str :: "int \<Rightarrow> string" where
  "py_str i =
     (if i < 0 then CHR ''-'' # decimal_digits (nat (- i)) [] else decimal_digits (nat i) [])"

text \<open>
  Modelled from the spec: the SourceLabel of a chunk (search_tools.py is missing).
  Section 3: \<^verbatim>\<open>{course title}\<close>, or \<^verbatim>\<open>{course title} - Lesson {n}\<close> when the
  metadata has a lesson number.
\<close>

definition source_label :: "chunk_metadata \<Rightarrow> string" where
  "source_label m =
     (case meta_lesson_number m of
        None \<Rightarrow> meta_course_title m
      | Some n \<Rightarrow> meta_course_title m @ '' - Lesson '' @ py_str n)"

text \<open>
  Modelled from the spec: the Source Tracker of \<^verbatim>\<open>CourseSearchTool._format_results\<close>
  (search_tools.py is missing). Section 4.5: the labels are appended to the tracker's
  list in result order, a label already in the list being dropped. The display text of
  the formatter is not modelled.
\<close>

fun track_sources :: "string list \<Rightarrow> string list \<Rightarrow> string list" where
  "track_sources tracked [] = tracked"
| "track_sources tracked (label # labels) =
     track_sources (if label \<in> set tracked then tracked else tracked @ [label]) labels"

definition format_results_sources :: "'d search_results \<Rightarrow> string list" where
  "format_results_sources results = track_sources [] (map source_label (metadata results))"

text \<open>
  An empty catalog, the metadata of a chunk, and the result set of the formatter's
  test (its distances in thousandths).
\<close>

definition python_chunk :: chunk_metadata where
  "python_chunk = \<lparr>meta_course_title = ''Python Basics'', meta_lesson_number = Some 1\<rparr>"

definition empty_catalog :: "string \<Rightarrow> string option" where
  "empty_catalog name = None"

definition duplicate_sources_results :: "int search_results" where
  "duplicate_sources_results =
     \<lparr>documents = [''Content 1'', ''Content 2'', ''Content 3''],
      metadata =
        [\<lparr>meta_course_title = ''Course A'', meta_lesson_number = Some 1\<rparr>,
         \<lparr>meta_course_title = ''Course A'', meta_lesson_number = Some 1\<rparr>,
         \<lparr>meta_course_title = ''Course B'', meta_lesson_number = Some 2\<rparr>],
      distances = [100, 150, 200],
      error = None\<rparr>"

section \<open>Properties of the orchestrator\<close>

subsection \<open>The operations, step by step\<close>

lemma call_model_eq:
  "create self p (world st) = (out, w') \<Longrightarrow>
   call_model self site p st = (out, st\<lparr>world := w', trace := trace st @ [ModelCall site p out]\<rparr>)"
  by (simp add: call_model_def)

lemma logged_simps [simp]:
  "messages (logged st w' ev) = messages st"
  "world (logged st w' ev) = w'"
  "trace (logged st w' ev) = trace st @ [ev]"
  by (simp_all add: logged_def)

lemma get_final_response_eq:
  assumes "create self (final_request self (messages st)) (world st) = (out, w')"
  shows "get_final_response self st =
           (case out of Inl e \<Rightarrow> Inl e | Inr r \<Rightarrow> Inr (content (message r)),
            logged st w' (ModelCall FinalSynthesis (final_request self (messages st)) out))"
  using assms
  by (cases out) (simp_all add: get_final_response_def call_model_def logged_def final_request_def)

lemma should_continue_eq:
  assumes "create self (decision_request self (messages st)) (world st) = (out, w')"
  shows "should_continue_to_next_round self st =
           (let st' = logged st w' (ModelCall ContinuationCheck (decision_request self (messages st)) out)
            in case out of
                 Inl e \<Rightarrow> (Inl e, st')
               | Inr d \<Rightarrow>
                   if finish_reason d = ''tool_calls''
                   then (Inr (True, None), st'\<lparr>messages := messages st @ [ModelMessage (message d)]\<rparr>)
                   else (Inr (False, content (message d)), st'))"
  using assms
  by (cases out)
     (simp_all add: should_continue_to_next_round_def call_model_def logged_def decision_request_def
        Let_def)

lemma make_api_call_eq:
  assumes "create self (api_params self (messages st) tools) (world st) = (out, w')"
  shows "make_api_call self tools st =
           (out, logged st w' (ModelCall RoundCall (api_params self (messages st) tools) out))"
  using assms by (simp add: make_api_call_def call_model_def logged_def)

lemma handle_tool_execution_round_eq:
  "handle_tool_execution_round self loads response tm r N st =
     (case tool_calls (message response) of
        None \<Rightarrow> (Inl TypeError, st\<lparr>messages := messages st @ [ModelMessage (message response)]\<rparr>)
      | Some tcs \<Rightarrow>
          (let st2 = execute_tool_calls loads tm r tcs
                       (st\<lparr>messages := messages st @ [ModelMessage (message response)],
                          trace := trace st @ [ToolBatch r tcs]\<rparr>)
           in if N \<le> r then (Inr (False, None), st2)
              else should_continue_to_next_round self st2))"
  by (simp add: handle_tool_execution_round_def Let_def split: option.splits)

lemma execute_tool_calls_messages:
  "messages (execute_tool_calls loads tm r tcs st) =
     messages st @
     map (\<lambda>(tc, outcome). ToolResult (call_id tc) (result_content outcome))
       (zip tcs (tool_outcomes loads tm tcs (world st)))"
  by (induction tcs arbitrary: st) (auto simp: result_content_def split: sum.splits prod.splits)

lemma execute_tool_calls_trace:
  "trace (execute_tool_calls loads tm r tcs st) =
     trace st @ tool_executions loads tm r tcs (world st)"
  by (induction tcs arbitrary: st) (auto split: sum.splits prod.splits)

lemma length_tool_outcomes: "length (tool_outcomes loads tm tcs w) = length tcs"
  by (induction tcs arbitrary: w) (auto split: sum.splits prod.splits)

lemma execute_tool_calls_append:
  "execute_tool_calls loads tm r (tcs @ tcs') st =
     execute_tool_calls loads tm r tcs' (execute_tool_calls loads tm r tcs st)"
  by (induction tcs arbitrary: st) (auto split: sum.splits prod.splits)

lemma get_final_response_final_result:
  "create self (final_request self (messages st)) (world st) = (out, w') \<Longrightarrow>
   get_final_response self st = final_result self st out w'"
  by (simp add: get_final_response_eq final_result_def)

lemma round_loop_paths [case_names fallback call_failed direct no_calls last_round
    decision_failed answered empty_answer continue]:
  fixes P :: "int \<Rightarrow> ('w, 'k) run_state \<Rightarrow> (error + string option) \<times> ('w, 'k) run_state \<Rightarrow> bool"
  assumes fallback: "\<And>rn st fout w4.
      \<lbrakk>N \<le> rn; create self (final_request self (messages st)) (world st) = (fout, w4)\<rbrakk>
      \<Longrightarrow> P rn st (final_result self st fout w4)"
    and call_failed: "\<And>rn st e w1.
      \<lbrakk>rn < N; create self (api_params self (messages st) tools) (world st) = (Inl e, w1)\<rbrakk>
      \<Longrightarrow> P rn st (Inl e, after_round_call self tools st (Inl e) w1)"
    and direct: "\<And>rn st r w1.
      \<lbrakk>rn < N; create self (api_params self (messages st) tools) (world st) = (Inr r, w1);
       finish_reason r \<noteq> ''tool_calls'' \<or> tm = None\<rbrakk>
      \<Longrightarrow> P rn st (Inr (content (message r)), after_round_call self tools st (Inr r) w1)"
    and no_calls: "\<And>rn st r w1 m.
      \<lbrakk>rn < N; create self (api_params self (messages st) tools) (world st) = (Inr r, w1);
       finish_reason r = ''tool_calls''; tm = Some m; tool_calls (message r) = None\<rbrakk>
      \<Longrightarrow> P rn st (Inl TypeError,
                (after_round_call self tools st (Inr r) w1)
                  \<lparr>messages := messages st @ [ModelMessage (message r)]\<rparr>)"
    and last_round: "\<And>rn st r w1 m tcs st2 fout w4.
      \<lbrakk>rn < N; create self (api_params self (messages st) tools) (world st) = (Inr r, w1);
       finish_reason r = ''tool_calls''; tm = Some m; tool_calls (message r) = Some tcs;
       st2 = after_tools loads m (rn + 1) r tcs (after_round_call self tools st (Inr r) w1);
       N \<le> rn + 1;
       create self (final_request self (messages st2)) (world st2) = (fout, w4)\<rbrakk>
      \<Longrightarrow> P rn st (final_result self st2 fout w4)"
    and decision_failed: "\<And>rn st r w1 m tcs st2 e w3.
      \<lbrakk>rn < N; create self (api_params self (messages st) tools) (world st) = (Inr r, w1);
       finish_reason r = ''tool_calls''; tm = Some m; tool_calls (message r) = Some tcs;
       st2 = after_tools loads m (rn + 1) r tcs (after_round_call self tools st (Inr r) w1);
       rn + 1 < N;
       create self (decision_request self (messages st2)) (world st2) = (Inl e, w3)\<rbrakk>
      \<Longrightarrow> P rn st (Inl e, after_decision self st2 (Inl e) w3)"
    and answered: "\<And>rn st r w1 m tcs st2 d w3.
      \<lbrakk>rn < N; create self (api_params self (messages st) tools) (world st) = (Inr r, w1);
       finish_reason r = ''tool_calls''; tm = Some m; tool_calls (message r) = Some tcs;
       st2 = after_tools loads m (rn + 1) r tcs (after_round_call self tools st (Inr r) w1);
       rn + 1 < N;
       create self (decision_request self (messages st2)) (world st2) = (Inr d, w3);
       finish_reason d \<noteq> ''tool_calls''; truthy (content (message d))\<rbrakk>
      \<Longrightarrow> P rn st (Inr (content (message d)), after_decision self st2 (Inr d) w3)"
    and empty_answer: "\<And>rn st r w1 m tcs st2 d w3 st3 fout w4.
      \<lbrakk>rn < N; create self (api_params self (messages st) tools) (world st) = (Inr r, w1);
       finish_reason r = ''tool_calls''; tm = Some m; tool_calls (message r) = Some tcs;
       st2 = after_tools loads m (rn + 1) r tcs (after_round_call self tools st (Inr r) w1);
       rn + 1 < N;
       create self (decision_request self (messages st2)) (world st2) = (Inr d, w3);
       finish_reason d \<noteq> ''tool_calls''; \<not> truthy (content (message d));
       st3 = after_decision self st2 (Inr d) w3;
       create self (final_request self (messages st3)) (world st3) = (fout, w4)\<rbrakk>
      \<Longrightarrow> P rn st (final_result self st3 fout w4)"
    and continue: "\<And>rn st r w1 m tcs st2 d w3 st4.
      \<lbrakk>rn < N; create self (api_params self (messages st) tools) (world st) = (Inr r, w1);
       finish_reason r = ''tool_calls''; tm = Some m; tool_calls (message r) = Some tcs;
       st2 = after_tools loads m (rn + 1) r tcs (after_round_call self tools st (Inr r) w1);
       rn + 1 < N;
       create self (decision_request self (messages st2)) (world st2) = (Inr d, w3);
       finish_reason d = ''tool_calls'';
       st4 = (after_decision self st2 (Inr d) w3)
               \<lparr>messages := messages st2 @ [ModelMessage (message d)]\<rparr>;
       P (rn + 1) st4 (round_loop self loads tools tm N (rn + 1) st4)\<rbrakk>
      \<Longrightarrow> P rn st (round_loop self loads tools tm N (rn + 1) st4)"
  shows "P rn st (round_loop self loads tools tm N rn st)"
proof (induction "nat (N - rn)" arbitrary: rn st)
  case 0
  then have le: "N \<le> rn" by simp
  obtain fout w4 where f: "create self (final_request self (messages st)) (world st) = (fout, w4)"
    by (cases "create self (final_request self (messages st)) (world st)")
  have "round_loop self loads tools tm N rn st = final_result self st fout w4"
    using le f by (subst round_loop.simps) (simp add: get_final_response_final_result)
  with fallback [OF le f] show ?case by simp
next
  case (Suc k)
  then have lt: "rn < N" and k: "k = nat (N - (rn + 1))" by simp_all
  obtain out w1 where c: "create self (api_params self (messages st) tools) (world st) = (out, w1)"
    by (cases "create self (api_params self (messages st) tools) (world st)")
  let ?st1 = "after_round_call self tools st out w1"
  have mk: "make_api_call self tools st = (out, ?st1)"
    using c by (simp add: make_api_call_eq after_round_call_def)
  show ?case
  proof (cases out)
    case (Inl e)
    have "round_loop self loads tools tm N rn st = (Inl e, ?st1)"
      using lt mk Inl by (subst round_loop.simps) simp
    with call_failed [OF lt c [unfolded Inl]] Inl show ?thesis by simp
  next
    case (Inr r)
    note c' = c [unfolded Inr]
    let ?s1 = "after_round_call self tools st (Inr r) w1"
    have mk': "make_api_call self tools st = (Inr r, ?s1)"
      using mk Inr by simp
    show ?thesis
    proof (cases "finish_reason r = ''tool_calls'' \<and> tm \<noteq> None")
      case False
      then have "round_loop self loads tools tm N rn st = (Inr (content (message r)), ?s1)"
        using lt mk' by (subst round_loop.simps) (auto split: option.splits bool.splits)
      with direct [OF lt c'] False show ?thesis by auto
    next
      case True
      then obtain m where fr: "finish_reason r = ''tool_calls''" and m: "tm = Some m" by auto
      show ?thesis
      proof (cases "tool_calls (message r)")
        case None
        have "round_loop self loads tools tm N rn st =
                (Inl TypeError, ?s1\<lparr>messages := messages st @ [ModelMessage (message r)]\<rparr>)"
          using lt mk' fr m None
          by (subst round_loop.simps)
             (simp add: handle_tool_execution_round_eq after_round_call_def)
        with no_calls [OF lt c' fr m None] show ?thesis by simp
      next
        case (Some tcs)
        define st2 where "st2 = after_tools loads m (rn + 1) r tcs ?s1"
        have h: "handle_tool_execution_round self loads r m (rn + 1) N ?s1 =
                   (if N \<le> rn + 1 then (Inr (False, None), st2)
                    else should_continue_to_next_round self st2)"
          using Some by (simp add: handle_tool_execution_round_eq st2_def after_tools_def Let_def)
        show ?thesis
        proof (cases "N \<le> rn + 1")
          case True
          obtain fout w4 where
            f: "create self (final_request self (messages st2)) (world st2) = (fout, w4)"
            by (cases "create self (final_request self (messages st2)) (world st2)")
          have "round_loop self loads tools tm N rn st = final_result self st2 fout w4"
            using lt mk' fr m h True f
            by (subst round_loop.simps)
               (simp add: get_final_response_final_result truthy_def)
          with last_round [OF lt c' fr m Some _ True f] show ?thesis
            by (simp add: st2_def)
        next
          case False
          then have lt': "rn + 1 < N" by simp
          obtain dout w3 where
            d: "create self (decision_request self (messages st2)) (world st2) = (dout, w3)"
            by (cases "create self (decision_request self (messages st2)) (world st2)")
          let ?st3 = "after_decision self st2 dout w3"
          note sc = should_continue_eq [OF d, folded after_decision_def, unfolded Let_def]
          show ?thesis
          proof (cases dout)
            case (Inl e)
            have "round_loop self loads tools tm N rn st = (Inl e, ?st3)"
              using lt mk' fr m h False sc Inl
              by (subst round_loop.simps) simp
            with decision_failed [OF lt c' fr m Some _ lt' d [unfolded Inl]] Inl
            show ?thesis by (simp add: st2_def)
          next
            case dr: (Inr dresp)
            note d' = d [unfolded dr]
            show ?thesis
            proof (cases "finish_reason dresp = ''tool_calls''")
              case True
              define st4 where
                "st4 = (after_decision self st2 (Inr dresp) w3)
                         \<lparr>messages := messages st2 @ [ModelMessage (message dresp)]\<rparr>"
              have eq: "round_loop self loads tools tm N rn st =
                      round_loop self loads tools tm N (rn + 1) st4"
                using lt mk' fr m h False sc dr True lt'
                by (subst round_loop.simps) (simp add: st4_def)
              have "P (rn + 1) st4 (round_loop self loads tools tm N (rn + 1) st4)"
                using Suc.hyps(1) [of "rn + 1" st4] k by simp
              from continue [OF lt c' fr m Some _ lt' d' True st4_def this] eq
              show ?thesis by (simp add: st2_def)
            next
              case nt: False
              show ?thesis
              proof (cases "truthy (content (message dresp))")
                case True
                have "round_loop self loads tools tm N rn st =
                        (Inr (content (message dresp)), ?st3)"
                  using lt mk' fr m h False sc dr nt True
                  by (subst round_loop.simps) simp
                with answered [OF lt c' fr m Some _ lt' d' nt True] dr
                show ?thesis by (simp add: st2_def)
              next
                case ft: False
                define st3 where "st3 = after_decision self st2 (Inr dresp) w3"
                obtain fout w4 where
                  f: "create self (final_request self (messages st3)) (world st3) = (fout, w4)"
                  by (cases "create self (final_request self (messages st3)) (world st3)")
                have "round_loop self loads tools tm N rn st = final_result self st3 fout w4"
                  using lt mk' fr m h False sc dr nt ft f
                  by (subst round_loop.simps)
                     (simp add: get_final_response_final_result st3_def)
                with empty_answer [OF lt c' fr m Some _ lt' d' nt ft st3_def f]
                show ?thesis by (simp add: st2_def)
              qed
            qed
          qed
        qed
      qed
    qed
  qed
qed

lemma batch_rounds_simps [simp]:
  "batch_rounds [] = []"
  "batch_rounds (xs @ ys) = batch_rounds xs @ batch_rounds ys"
  "batch_rounds (ModelCall site p out # xs) = batch_rounds xs"
  "batch_rounds (ToolBatch r tcs # xs) = r # batch_rounds xs"
  "batch_rounds (ToolExecution r n k oc # xs) = batch_rounds xs"
  by (simp_all add: batch_rounds_def List.map_filter_def)

lemma execution_rounds_simps [simp]:
  "execution_rounds [] = []"
  "execution_rounds (xs @ ys) = execution_rounds xs @ execution_rounds ys"
  "execution_rounds (ModelCall site p out # xs) = execution_rounds xs"
  "execution_rounds (ToolBatch r tcs # xs) = execution_rounds xs"
  "execution_rounds (ToolExecution r n k oc # xs) = r # execution_rounds xs"
  by (simp_all add: execution_rounds_def List.map_filter_def)

lemma batch_rounds_tool_executions [simp]:
  "batch_rounds (tool_executions loads m r tcs w) = []"
  by (induction tcs arbitrary: w) (auto split: sum.splits prod.splits)

lemma execution_rounds_tool_executions:
  "set (execution_rounds (tool_executions loads m r tcs w)) \<subseteq> {r}"
  by (induction tcs arbitrary: w) (auto split: sum.splits prod.splits)

lemma trace_after_tools:
  "trace (after_tools loads m r resp tcs st) =
     trace st @ ToolBatch r tcs # tool_executions loads m r tcs (world st)"
  by (simp add: after_tools_def execute_tool_calls_trace)

lemma messages_after_tools:
  "messages (after_tools loads m r resp tcs st) =
     messages st @ ModelMessage (message resp) #
     map (\<lambda>(tc, outcome). ToolResult (call_id tc) (result_content outcome))
       (zip tcs (tool_outcomes loads m tcs (world st)))"
  by (simp add: after_tools_def execute_tool_calls_messages)

lemma trace_after_round_call [simp]:
  "trace (after_round_call self tools st out w') =
     trace st @ [ModelCall RoundCall (api_params self (messages st) tools) out]"
  "messages (after_round_call self tools st out w') = messages st"
  "world (after_round_call self tools st out w') = w'"
  by (simp_all add: after_round_call_def)

lemma trace_after_decision [simp]:
  "trace (after_decision self st out w') =
     trace st @ [ModelCall ContinuationCheck (decision_request self (messages st)) out]"
  "messages (after_decision self st out w') = messages st"
  "world (after_decision self st out w') = w'"
  by (simp_all add: after_decision_def)

lemma final_result_simps [simp]:
  "trace (snd (final_result self st out w')) =
     trace st @ [ModelCall FinalSynthesis (final_request self (messages st)) out]"
  "messages (snd (final_result self st out w')) = messages st"
  "fst (final_result self st out w') =
     (case out of Inl e \<Rightarrow> Inl e | Inr r \<Rightarrow> Inr (content (message r)))"
  by (simp_all add: final_result_def)

lemma rounds_withinI:
  "\<lbrakk>rn \<le> j; j = rn \<or> j \<le> N;
    batch_rounds (trace (snd out)) = batch_rounds (trace st) @ [rn + 1..j];
    set (execution_rounds (trace (snd out))) \<subseteq> set (execution_rounds (trace st)) \<union> {rn + 1..j}\<rbrakk>
   \<Longrightarrow> rounds_within N rn st out"
  unfolding rounds_within_def by blast

lemma round_loop_rounds_within:
  "rounds_within N rn st (round_loop self loads tools tm N rn st)"
proof (induction rn st rule: round_loop_paths [where self = self and loads = loads
      and tools = tools and tm = tm and N = N])
  case (fallback rn st fout w4)
  show ?case by (rule rounds_withinI [where j = rn]) simp_all
next
  case (call_failed rn st e w1)
  show ?case by (rule rounds_withinI [where j = rn]) simp_all
next
  case (direct rn st r w1)
  show ?case by (rule rounds_withinI [where j = rn]) simp_all
next
  case (no_calls rn st r w1 m)
  show ?case by (rule rounds_withinI [where j = rn]) simp_all
next
  case (last_round rn st r w1 m tcs st2 fout w4)
  have "set (execution_rounds (tool_executions loads m (rn + 1) tcs w1)) \<subseteq> {rn + 1}"
    by (rule execution_rounds_tool_executions)
  with last_round show ?case
    by (intro rounds_withinI [where j = "rn + 1"]) (auto simp: trace_after_tools)
next
  case (decision_failed rn st r w1 m tcs st2 e w3)
  have "set (execution_rounds (tool_executions loads m (rn + 1) tcs w1)) \<subseteq> {rn + 1}"
    by (rule execution_rounds_tool_executions)
  with decision_failed show ?case
    by (intro rounds_withinI [where j = "rn + 1"]) (auto simp: trace_after_tools)
next
  case (answered rn st r w1 m tcs st2 d w3)
  have "set (execution_rounds (tool_executions loads m (rn + 1) tcs w1)) \<subseteq> {rn + 1}"
    by (rule execution_rounds_tool_executions)
  with answered show ?case
    by (intro rounds_withinI [where j = "rn + 1"]) (auto simp: trace_after_tools)
next
  case (empty_answer rn st r w1 m tcs st2 d w3 st3 fout w4)
  have "set (execution_rounds (tool_executions loads m (rn + 1) tcs w1)) \<subseteq> {rn + 1}"
    by (rule execution_rounds_tool_executions)
  with empty_answer show ?case
    by (intro rounds_withinI [where j = "rn + 1"]) (auto simp: trace_after_tools)
next
  case (continue rn st r w1 m tcs st2 d w3 st4)
  have ex: "set (execution_rounds (tool_executions loads m (rn + 1) tcs w1)) \<subseteq> {rn + 1}"
    by (rule execution_rounds_tool_executions)
  let ?out = "round_loop self loads tools tm N (rn + 1) st4"
  from continue(11) obtain j where j: "rn + 1 \<le> j" "j = rn + 1 \<or> j \<le> N"
    and b: "batch_rounds (trace (snd ?out)) = batch_rounds (trace st4) @ [rn + 1 + 1..j]"
    and e: "set (execution_rounds (trace (snd ?out)))
              \<subseteq> set (execution_rounds (trace st4)) \<union> {rn + 1 + 1..j}"
    unfolding rounds_within_def by blast
  have t4: "trace st4 = trace st @ ModelCall RoundCall (api_params self (messages st) tools) (Inr r)
              # ToolBatch (rn + 1) tcs # tool_executions loads m (rn + 1) tcs w1
              @ [ModelCall ContinuationCheck (decision_request self (messages st2)) (Inr d)]"
    using continue by (simp add: trace_after_tools)
  have up: "[rn + 1..j] = (rn + 1) # [rn + 1 + 1..j]"
    using j(1) by (simp add: upto_rec1)
  show ?case
  proof (rule rounds_withinI [where j = j])
    show "rn \<le> j" using j by simp
    show "j = rn \<or> j \<le> N" using j continue by auto
    show "batch_rounds (trace (snd ?out)) = batch_rounds (trace st) @ [rn + 1..j]"
      using b t4 up by simp
    have s4: "set (execution_rounds (trace st4)) \<subseteq> set (execution_rounds (trace st)) \<union> {rn + 1}"
      using t4 ex by auto
    have "{rn + 1} \<union> {rn + 1 + 1..j} \<subseteq> {rn + 1..j}"
      using j(1) by auto
    with e s4 show "set (execution_rounds (trace (snd ?out)))
            \<subseteq> set (execution_rounds (trace st)) \<union> {rn + 1..j}"
      by blast
  qed
qed

lemma client_respondsD:
  assumes "client_responds self" and "create self req w = (out, w')"
  obtains r where "out = Inr r" and "finish_reason r = ''tool_calls'' \<Longrightarrow> tool_calls (message r) \<noteq> None"
  using assms unfolding client_responds_def by (metis fst_conv)

lemma final_result_answers:
  assumes "client_responds self" and "create self (final_request self (messages st)) (world st) = (fout, w4)"
  shows "answers_with_last_response (final_result self st fout w4 :: (error + string option) \<times> ('w, 'k) run_state)"
proof -
  from assms obtain r where "fout = Inr r" by (rule client_respondsD)
  then show ?thesis by (auto simp: answers_with_last_response_def)
qed

lemma round_loop_answers:
  assumes ok: "client_responds self"
  shows "answers_with_last_response (round_loop self loads tools tm N rn st)"
proof (induction rn st rule: round_loop_paths [where self = self and loads = loads
      and tools = tools and tm = tm and N = N])
  case (fallback rn st fout w4)
  then show ?case using ok by (auto intro: final_result_answers)
next
  case (call_failed rn st e w1)
  from ok call_failed(2) show ?case by (rule client_respondsD) simp
next
  case (direct rn st r w1)
  show ?case by (auto simp: answers_with_last_response_def)
next
  case (no_calls rn st r w1 m)
  from ok no_calls(2) show ?case by (rule client_respondsD) (use no_calls in auto)
next
  case (last_round rn st r w1 m tcs st2 fout w4)
  then show ?case using ok by (auto intro: final_result_answers)
next
  case (decision_failed rn st r w1 m tcs st2 e w3)
  from ok decision_failed(8) show ?case by (rule client_respondsD) simp
next
  case (answered rn st r w1 m tcs st2 d w3)
  show ?case by (auto simp: answers_with_last_response_def)
next
  case (empty_answer rn st r w1 m tcs st2 d w3 st3 fout w4)
  then show ?case using ok by (auto intro: final_result_answers)
next
  case (continue rn st r w1 m tcs st2 d w3 st4)
  then show ?case by simp
qed

text \<open>
  Claim C1. For every call of \<^verbatim>\<open>generate_response\<close> with \<open>max_rounds = N\<close>, whatever
  the model and the tools do: the tool loop is entered in at most \<open>N\<close> rounds, each
  round at most once; the rounds in which a tool is executed are among them, so at most
  \<open>N\<close> rounds contain a tool execution. The function is total, so the loop always
  ends; and when the client never raises and its tool requests carry their calls, the
  query returns an answer, the content of the last response of the model.
\<close>

theorem round_bound_and_termination:
  fixes self :: "'w ai_generator" and tm :: "('w, 'k) tool_manager option"
  shows "length (batch_rounds (trace (snd
            (generate_response self loads query history tools tm N w)))) \<le> nat N \<and>
         distinct (batch_rounds (trace (snd
            (generate_response self loads query history tools tm N w)))) \<and>
         set (execution_rounds (trace (snd
            (generate_response self loads query history tools tm N w))))
           \<subseteq> set (batch_rounds (trace (snd
            (generate_response self loads query history tools tm N w)))) \<and>
         card (set (execution_rounds (trace (snd
            (generate_response self loads query history tools tm N w))))) \<le> nat N \<and>
         (client_responds self \<longrightarrow>
            answers_with_last_response (generate_response self loads query history tools tm N w))"
proof -
  obtain st0 :: "('w, 'k) run_state" where
    g: "generate_response self loads query history tools tm N w =
          round_loop self loads tools tm N 0 st0" and t0: "trace st0 = []"
    by (simp add: generate_response_def Let_def)
  let ?tr = "trace (snd (generate_response self loads query history tools tm N w))"
  have "rounds_within N 0 st0 (round_loop self loads tools tm N 0 st0)"
    by (rule round_loop_rounds_within)
  then obtain j where j: "0 \<le> j" "j = 0 \<or> j \<le> N"
    and b: "batch_rounds ?tr = [1..j]"
    and e: "set (execution_rounds ?tr) \<subseteq> {1..j}"
    unfolding rounds_within_def g t0 by auto
  have len: "length (batch_rounds ?tr) \<le> nat N"
    using j b by auto
  have "card (set (execution_rounds ?tr)) \<le> card {1..j}"
    using e by (intro card_mono) simp_all
  then have c: "card (set (execution_rounds ?tr)) \<le> nat N"
    using j by auto
  have "client_responds self \<longrightarrow>
          answers_with_last_response (generate_response self loads query history tools tm N w)"
    unfolding g by (simp add: round_loop_answers)
  with len b e c show ?thesis by simp
qed

text \<open>
  The hypothesis of C1 holds of a model that asks for a tool in every response; with
  two rounds allowed the query still returns.
\<close>

theorem round_bound_and_termination_witness:
  "client_responds insistent_generator \<and>
   card (set (execution_rounds (trace (snd
     (generate_response insistent_generator Inr ''q'' None None (Some plain_tool_manager) 2 ())))))
     \<le> nat 2 \<and>
   answers_with_last_response
     (generate_response insistent_generator Inr ''q'' None None (Some plain_tool_manager) 2 ())"
proof -
  have ok: "client_responds insistent_generator"
    by (simp add: client_responds_def insistent_generator_def insistent_create_def)
  with round_bound_and_termination [of insistent_generator Inr "''q''" None None
      "Some plain_tool_manager" 2 "()"]
  show ?thesis by simp
qed

lemma generate_response_round_loop:
  "generate_response self loads query history tools tm N w =
     round_loop self loads tools tm N 0
       \<lparr>messages = initial_messages self query history, world = w, trace = []\<rparr>"
  by (simp add: generate_response_def initial_messages_def Let_def)

lemma direct_answer_tool_executions [simp]:
  "filter direct_answer (tool_executions loads m r tcs w) = []"
  by (induction tcs arbitrary: w) (auto split: sum.splits prod.splits)

lemma ends_at_direct_answerI:
  "\<lbrakk>trace (snd out) = trace st @ evs; evs \<noteq> []; filter direct_answer (butlast evs) = [];
    direct_answer (last evs) \<Longrightarrow> fst out = Inr (response_text (last evs))\<rbrakk>
   \<Longrightarrow> ends_at_direct_answer st out"
  unfolding ends_at_direct_answer_def by blast

lemma round_loop_ends_at_direct_answer:
  "ends_at_direct_answer st (round_loop self loads tools tm N rn st)"
proof (induction rn st rule: round_loop_paths [where self = self and loads = loads
      and tools = tools and tm = tm and N = N])
  case (fallback rn st fout w4)
  show ?case
    by (rule ends_at_direct_answerI
          [where evs = "[ModelCall FinalSynthesis (final_request self (messages st)) fout]"])
       simp_all
next
  case (call_failed rn st e w1)
  show ?case
    by (rule ends_at_direct_answerI
          [where evs = "[ModelCall RoundCall (api_params self (messages st) tools) (Inl e)]"])
       simp_all
next
  case (direct rn st r w1)
  show ?case
    by (rule ends_at_direct_answerI
          [where evs = "[ModelCall RoundCall (api_params self (messages st) tools) (Inr r)]"])
       simp_all
next
  case (no_calls rn st r w1 m)
  show ?case
    by (rule ends_at_direct_answerI
          [where evs = "[ModelCall RoundCall (api_params self (messages st) tools) (Inr r)]"])
       (simp_all add: no_calls)
next
  case (last_round rn st r w1 m tcs st2 fout w4)
  show ?case
    by (rule ends_at_direct_answerI
          [where evs = "ModelCall RoundCall (api_params self (messages st) tools) (Inr r)
              # ToolBatch (rn + 1) tcs # tool_executions loads m (rn + 1) tcs w1
              @ [ModelCall FinalSynthesis (final_request self (messages st2)) fout]"])
       (simp_all add: last_round trace_after_tools butlast_append)
next
  case (decision_failed rn st r w1 m tcs st2 e w3)
  show ?case
    by (rule ends_at_direct_answerI
          [where evs = "ModelCall RoundCall (api_params self (messages st) tools) (Inr r)
              # ToolBatch (rn + 1) tcs # tool_executions loads m (rn + 1) tcs w1
              @ [ModelCall ContinuationCheck (decision_request self (messages st2)) (Inl e)]"])
       (simp_all add: decision_failed trace_after_tools butlast_append)
next
  case (answered rn st r w1 m tcs st2 d w3)
  show ?case
    by (rule ends_at_direct_answerI
          [where evs = "ModelCall RoundCall (api_params self (messages st) tools) (Inr r)
              # ToolBatch (rn + 1) tcs # tool_executions loads m (rn + 1) tcs w1
              @ [ModelCall ContinuationCheck (decision_request self (messages st2)) (Inr d)]"])
       (simp_all add: answered trace_after_tools butlast_append)
next
  case (empty_answer rn st r w1 m tcs st2 d w3 st3 fout w4)
  show ?case
    by (rule ends_at_direct_answerI
          [where evs = "ModelCall RoundCall (api_params self (messages st) tools) (Inr r)
              # ToolBatch (rn + 1) tcs # tool_executions loads m (rn + 1) tcs w1
              @ [ModelCall ContinuationCheck (decision_request self (messages st2)) (Inr d),
                 ModelCall FinalSynthesis (final_request self (messages st3)) fout]"])
       (simp_all add: empty_answer trace_after_tools butlast_append)
next
  case (continue rn st r w1 m tcs st2 d w3 st4)
  let ?out = "round_loop self loads tools tm N (rn + 1) st4"
  let ?pre = "ModelCall RoundCall (api_params self (messages st) tools) (Inr r)
              # ToolBatch (rn + 1) tcs # tool_executions loads m (rn + 1) tcs w1
              @ [ModelCall ContinuationCheck (decision_request self (messages st2)) (Inr d)]"
  from continue(11) obtain evs where evs: "evs \<noteq> []" "trace (snd ?out) = trace st4 @ evs"
      "filter direct_answer (butlast evs) = []"
      "direct_answer (last evs) \<longrightarrow> fst ?out = Inr (response_text (last evs))"
    unfolding ends_at_direct_answer_def by blast
  have t4: "trace st4 = trace st @ ?pre"
    using continue by (simp add: trace_after_tools)
  show ?case
    by (rule ends_at_direct_answerI [where evs = "?pre @ evs"])
       (use evs t4 continue in \<open>simp_all add: butlast_append\<close>)
qed

text \<open>
  Claim C6. When the response to a round's call requests no tools, the query ends
  there and returns the text of that response as it is. First, for the loop at any round
  and in any state: the result is the content of the response, and the state is the one
  the call left, so nothing else was done. Then, for a whole query: a response of a
  round that requests no tools is the last event of the trace, and the answer is its text.
\<close>

theorem direct_answer_returned_verbatim:
  fixes self :: "'w ai_generator" and tm :: "('w, 'k) tool_manager option"
  shows "(round_num < max_rounds \<and>
          create self (api_params self (messages st) tools) (world st) = (Inr r, w') \<and>
          finish_reason r \<noteq> ''tool_calls''
          \<longrightarrow> round_loop self loads tools tm max_rounds round_num st =
                (Inr (content (message r)),
                 st\<lparr>world := w',
                    trace := trace st @
                      [ModelCall RoundCall (api_params self (messages st) tools) (Inr r)]\<rparr>)) \<and>
         filter direct_answer (butlast (trace (snd
            (generate_response self loads query history tools tm max_rounds w)))) = [] \<and>
         (direct_answer (last (trace (snd
            (generate_response self loads query history tools tm max_rounds w))))
          \<longrightarrow> fst (generate_response self loads query history tools tm max_rounds w) =
                Inr (response_text (last (trace (snd
                  (generate_response self loads query history tools tm max_rounds w))))))"
proof -
  have one: "round_loop self loads tools tm max_rounds round_num st =
               (Inr (content (message r)),
                st\<lparr>world := w',
                   trace := trace st @
                     [ModelCall RoundCall (api_params self (messages st) tools) (Inr r)]\<rparr>)"
    if "round_num < max_rounds"
      and "create self (api_params self (messages st) tools) (world st) = (Inr r, w')"
      and "finish_reason r \<noteq> ''tool_calls''"
    using that
    by (subst round_loop.simps) (simp add: make_api_call_eq logged_def)
  let ?st0 = "\<lparr>messages = initial_messages self query history, world = w, trace = []\<rparr>
                :: ('w, 'k) run_state"
  have "ends_at_direct_answer ?st0 (round_loop self loads tools tm max_rounds 0 ?st0)"
    by (rule round_loop_ends_at_direct_answer)
  then have "filter direct_answer (butlast (trace (snd
            (generate_response self loads query history tools tm max_rounds w)))) = [] \<and>
         (direct_answer (last (trace (snd
            (generate_response self loads query history tools tm max_rounds w))))
          \<longrightarrow> fst (generate_response self loads query history tools tm max_rounds w) =
                Inr (response_text (last (trace (snd
                  (generate_response self loads query history tools tm max_rounds w))))))"
    unfolding ends_at_direct_answer_def generate_response_round_loop by auto
  with one show ?thesis by blast
qed

lemmas run_simps =
  generate_response_def round_loop.simps make_api_call_def call_model_def api_params_def
  base_params_def handle_tool_execution_round_def should_continue_to_next_round_def
  get_final_response_def truthy_def Let_def scripted_create_def scripted_generator_def
  text_response_def tool_request_def plain_tool_manager_def

text \<open>C6 at a concrete query: the first response is a plain text.\<close>

theorem direct_answer_returned_verbatim_witness:
  "(0::int) < 2 \<and>
   create scripted_generator
     (api_params scripted_generator (initial_messages scripted_generator ''q'' None)
        (Some [search_tool]))
     [text_response (Some ''Direct response'')]
     = (Inr (text_response (Some ''Direct response'')), []) \<and>
   finish_reason (text_response (Some ''Direct response'')) \<noteq> ''tool_calls'' \<and>
   direct_answer (last (trace (snd
     (generate_response scripted_generator Inr ''q'' None (Some [search_tool])
        (Some plain_tool_manager) 2 [text_response (Some ''Direct response'')])))) \<and>
   fst (round_loop scripted_generator Inr (Some [search_tool]) (Some plain_tool_manager) 2 0
     \<lparr>messages = initial_messages scripted_generator ''q'' None,
      world = [text_response (Some ''Direct response'')], trace = []\<rparr>) =
     Inr (Some ''Direct response'') \<and>
   fst (generate_response scripted_generator Inr ''q'' None (Some [search_tool])
        (Some plain_tool_manager) 2 [text_response (Some ''Direct response'')]) =
     Inr (Some ''Direct response'')"
proof -
  let ?r = "text_response (Some ''Direct response'')"
  let ?run = "generate_response scripted_generator Inr ''q'' None (Some [search_tool])
        (Some plain_tool_manager) 2 [?r]"
  let ?st0 = "\<lparr>messages = initial_messages scripted_generator ''q'' None,
      world = [?r], trace = []\<rparr> :: (response list, string) run_state"
  have c: "create scripted_generator
     (api_params scripted_generator (messages ?st0) (Some [search_tool])) (world ?st0)
     = (Inr ?r, [])"
    by (simp add: scripted_generator_def scripted_create_def)
  have f: "finish_reason ?r \<noteq> ''tool_calls''"
    by (simp add: text_response_def)
  have d: "direct_answer (last (trace (snd ?run)))"
    by (simp add: run_simps)
  have t: "response_text (last (trace (snd ?run))) = Some ''Direct response''"
    by (simp add: run_simps)
  have m: "content (message ?r) = Some ''Direct response''"
    by (simp add: text_response_def)
  from direct_answer_returned_verbatim [where round_num = 0 and max_rounds = 2
      and self = scripted_generator and st = ?st0 and tools = "Some [search_tool]"
      and r = ?r and w' = "[]" and loads = Inr and tm = "Some plain_tool_manager"
      and query = "''q''" and history = None and w = "[?r]"] c f d t m
  show ?thesis by simp
qed

lemma round_loop_without_manager:
  "batch_rounds (trace (snd (round_loop self loads tools None N rn st))) =
     batch_rounds (trace st) \<and>
   execution_rounds (trace (snd (round_loop self loads tools None N rn st))) =
     execution_rounds (trace st)"
  by (induction rn st rule: round_loop_paths [where self = self and loads = loads
      and tools = tools and tm = None and N = N]) simp_all

text \<open>
  Claim C10. Without a tool manager no tool is ever executed. With at least one round
  allowed, the content of the first response is returned as it is, whatever its finish
  reason, \<^verbatim>\<open>"tool_calls"\<close> included: the query makes that one call, executes nothing
  and raises nothing. The content may be \<open>None\<close>.
\<close>

theorem no_tool_manager_returns_content:
  fixes self :: "'w ai_generator" and loads :: "string \<Rightarrow> string + 'k"
  shows "(0 < max_rounds \<and>
          create self (api_params self (initial_messages self query history) tools) w
            = (Inr r, w')
          \<longrightarrow> generate_response self loads query history tools None max_rounds w =
                (Inr (content (message r)),
                 \<lparr>messages = initial_messages self query history, world = w',
                  trace = [ModelCall RoundCall
                    (api_params self (initial_messages self query history) tools) (Inr r)]\<rparr>)) \<and>
         batch_rounds (trace (snd
           (generate_response self loads query history tools None max_rounds w))) = [] \<and>
         execution_rounds (trace (snd
           (generate_response self loads query history tools None max_rounds w))) = []"
proof -
  have "generate_response self loads query history tools None max_rounds w =
                (Inr (content (message r)),
                 \<lparr>messages = initial_messages self query history, world = w',
                  trace = [ModelCall RoundCall
                    (api_params self (initial_messages self query history) tools) (Inr r)]\<rparr>)"
    if "0 < max_rounds"
      and "create self (api_params self (initial_messages self query history) tools) w
            = (Inr r, w')"
    unfolding generate_response_round_loop using that
    by (subst round_loop.simps) (simp add: make_api_call_eq logged_def split: bool.splits)
  moreover have "batch_rounds (trace (snd
           (generate_response self loads query history tools None max_rounds w))) = [] \<and>
         execution_rounds (trace (snd
           (generate_response self loads query history tools None max_rounds w))) = []"
    unfolding generate_response_round_loop
    using round_loop_without_manager [of self loads tools max_rounds 0
        "\<lparr>messages = initial_messages self query history, world = w, trace = []\<rparr>"]
    by simp
  ultimately show ?thesis by blast
qed

text \<open>
  C10 at a concrete query: the model requests a tool, there is no tool manager, and the
  answer is the empty content of the request.
\<close>

theorem no_tool_manager_returns_content_witness:
  "(0::int) < 2 \<and>
   create scripted_generator
     (api_params scripted_generator (initial_messages scripted_generator ''q'' None)
        (Some [search_tool]))
     [tool_request [\<lparr>call_id = ''call_1'', function_name = ''search_course_content'',
                      function_arguments = ''{}''\<rparr>]]
     = (Inr (tool_request [\<lparr>call_id = ''call_1'', function_name = ''search_course_content'',
                      function_arguments = ''{}''\<rparr>]), []) \<and>
   fst (generate_response scripted_generator Inr ''q'' None (Some [search_tool]) None 2
     [tool_request [\<lparr>call_id = ''call_1'', function_name = ''search_course_content'',
                      function_arguments = ''{}''\<rparr>]]) = Inr None"
proof -
  let ?r = "tool_request [\<lparr>call_id = ''call_1'', function_name = ''search_course_content'',
                      function_arguments = ''{}''\<rparr>]"
  have c: "create scripted_generator
     (api_params scripted_generator (initial_messages scripted_generator ''q'' None)
        (Some [search_tool])) [?r] = (Inr ?r, [])"
    by (simp add: scripted_generator_def scripted_create_def)
  have "content (message ?r) = None"
    by (simp add: tool_request_def)
  with no_tool_manager_returns_content [of 2 scripted_generator "''q''" None
      "Some [search_tool]" "[?r]" ?r "[]" Inr] c
  show ?thesis by simp
qed

lemma executed_tool_executions:
  "List.map_filter executed_tool (tool_executions loads tm r tcs w) =
     map function_name (filter (\<lambda>tc. \<not> isl (loads (function_arguments tc))) tcs)"
  by (induction tcs arbitrary: w)
     (auto simp: List.map_filter_def split: sum.splits prod.splits)

lemma answered_call_ids:
  "length tcs = length outs \<Longrightarrow>
   List.map_filter answered_call_id
     (map (\<lambda>(tc, outcome). ToolResult (call_id tc) (result_content outcome)) (zip tcs outs)) =
   map call_id tcs"
  by (induction tcs outs rule: list_induct2) (simp_all add: List.map_filter_def)

text \<open>
  Claim C4, on the code: the continuation check is a call to the model, but its request
  carries no tools. In a query given the search tool, the call of the round advertises
  it and the continuation check advertises nothing.
\<close>

theorem continuation_check_advertises_no_tools:
  "List.map_filter advertised_tools (trace (snd
     (generate_response scripted_generator Inr ''q'' None (Some [search_tool])
        (Some plain_tool_manager) 2
        [tool_request [\<lparr>call_id = ''call_1'', function_name = ''search_course_content'',
                        function_arguments = ''{}''\<rparr>],
         text_response (Some ''Final answer'')]))) =
     [(RoundCall, Some (convert_tools_to_openai_format [search_tool])),
      (ContinuationCheck, None)]"
  by (simp add: run_simps List.map_filter_def)

lemma continuation_check_request:
  "\<exists>outcome. trace (snd (should_continue_to_next_round self st)) =
       trace st @ [ModelCall ContinuationCheck (decision_request self (messages st)) outcome]"
    and "tools_param (decision_request self msgs) = None"
    and "tool_choice (decision_request self msgs) = None"
proof -
  obtain out w' where "create self (decision_request self (messages st)) (world st) = (out, w')"
    by (cases "create self (decision_request self (messages st)) (world st)")
  from should_continue_eq [OF this]
  show "\<exists>outcome. trace (snd (should_continue_to_next_round self st)) =
       trace st @ [ModelCall ContinuationCheck (decision_request self (messages st)) outcome]"
    by (auto simp: Let_def split: sum.splits)
qed (simp_all add: decision_request_def base_params_def)

lemma fresh_call_after_left:
  "\<not> continues e \<Longrightarrow> fresh_call_after self tools e e'"
  by (cases "(self, tools, e, e')" rule: fresh_call_after.cases) auto

lemma tool_executions_events:
  "e \<in> set (tool_executions loads m r tcs w) \<Longrightarrow> \<exists>n k oc. e = ToolExecution r n k oc"
  by (induction tcs arbitrary: w) (auto split: sum.splits prod.splits)

lemma successively_left_trivial:
  "(\<And>e e'. e \<in> set xs \<Longrightarrow> R e e') \<Longrightarrow> successively R (xs @ ys) = successively R ys"
  by (induction xs) (auto simp: successively_Cons)

lemma successively_right_all:
  "(\<And>e e'. e' \<in> set ys \<Longrightarrow> R e e') \<Longrightarrow> successively R ys"
proof (induction ys)
  case (Cons a ys)
  have "R a (hd ys)" if "ys \<noteq> []"
    using that Cons.prems [of "hd ys" a] by simp
  moreover have "successively R ys"
    using Cons by simp
  ultimately show ?case by (auto simp: successively_Cons)
qed simp

lemma successively_right_trivial:
  assumes "\<And>e e'. e' \<in> set ys \<Longrightarrow> R e e'"
  shows "successively R (xs @ ys) = successively R xs"
proof (cases "ys = []")
  case False
  then have "hd ys \<in> set ys" by simp
  with assms successively_right_all [of ys R] show ?thesis
    by (auto simp: successively_append_iff)
qed simp

lemma batch_from_round_call_right:
  "batch_rounds [e'] = [] \<Longrightarrow> batch_from_round_call e e'"
  by (cases "(e, e')" rule: batch_from_round_call.cases) auto

lemma continues_tool_executions:
  "e \<in> set (tool_executions loads m r tcs w) \<Longrightarrow> \<not> continues e"
  by (auto dest: tool_executions_events)

lemma batch_rounds_tool_execution_event:
  "e \<in> set (tool_executions loads m r tcs w) \<Longrightarrow> batch_rounds [e] = []"
  by (auto dest: tool_executions_events)

lemma successively_fresh_segment:
  assumes "successively (fresh_call_after self tools) tr"
    and "tr = [] \<or> fresh_call_after self tools (last tr) (ModelCall RoundCall p out)"
    and "\<And>e. e \<in> set mid \<Longrightarrow> \<not> continues e"
  shows "successively (fresh_call_after self tools) (tr @ ModelCall RoundCall p out # mid @ [x])"
proof -
  have "successively (fresh_call_after self tools) ((ModelCall RoundCall p out # mid) @ [x])"
    using assms(3) by (subst successively_left_trivial) (auto intro: fresh_call_after_left)
  with assms(1,2) show ?thesis
    by (auto simp: successively_append_iff)
qed

lemma successively_fresh_single:
  assumes "successively (fresh_call_after self tools) tr"
    and "tr = [] \<or> fresh_call_after self tools (last tr) x"
  shows "successively (fresh_call_after self tools) (tr @ [x])"
  using assms by (auto simp: successively_append_iff)

lemma successively_batch_segment:
  assumes "successively batch_from_round_call tr"
    and "finish_reason r = ''tool_calls''" and "tool_calls (message r) = Some tcs"
    and "\<And>e. e \<in> set rest \<Longrightarrow> batch_rounds [e] = []"
  shows "successively batch_from_round_call
           (tr @ ModelCall RoundCall p (Inr r) # ToolBatch n tcs # rest)"
proof -
  have "successively batch_from_round_call
          ((tr @ [ModelCall RoundCall p (Inr r), ToolBatch n tcs]) @ rest) =
        successively batch_from_round_call
          (tr @ [ModelCall RoundCall p (Inr r), ToolBatch n tcs])"
    using assms(4) by (intro successively_right_trivial batch_from_round_call_right)
  moreover have "successively batch_from_round_call
          (tr @ [ModelCall RoundCall p (Inr r), ToolBatch n tcs])"
    using assms(1-3) by (auto simp: successively_append_iff batch_from_round_call_right)
  ultimately show ?thesis by simp
qed

lemma successively_batch_single:
  assumes "successively batch_from_round_call tr"
  shows "successively batch_from_round_call (tr @ [ModelCall site p out])"
  using assms by (auto simp: successively_append_iff batch_from_round_call_right)

lemma fresh_call_after_outcome:
  "fresh_call_after self tools e (ModelCall RoundCall p out) =
   fresh_call_after self tools e (ModelCall RoundCall p out')"
  by (cases e rule: continues.cases) auto

lemma head_boundary:
  assumes "fresh_calls_so_far self tools N rn st" and "rn < N"
  shows "trace st = [] \<or> fresh_call_after self tools (last (trace st))
           (ModelCall RoundCall (api_params self (messages st) tools) out)"
  using assms fresh_call_after_outcome [of self tools "last (trace st)" _ out "Inl TypeError"]
  by (auto simp: fresh_calls_so_far_def intro: fresh_call_after_left)

lemma so_far_fallback:
  assumes "fresh_calls_so_far self tools N rn st" and "N \<le> rn"
  shows "trace st = [] \<or> fresh_call_after self tools (last (trace st)) x"
  using assms by (auto simp: fresh_calls_so_far_def intro: fresh_call_after_left)

lemma throughout_single:
  fixes st :: "('w, 'k) run_state"
  assumes "fresh_calls_so_far self tools N rn st"
    and "trace st = [] \<or> fresh_call_after self tools (last (trace st)) (ModelCall site p out)"
    and "\<not> continues (ModelCall site p out :: 'k event)"
  shows "fresh_calls_throughout self tools (trace st @ [ModelCall site p out])"
  using assms
  by (auto simp: fresh_calls_throughout_def fresh_calls_so_far_def
      intro!: successively_fresh_single successively_batch_single)

lemma segment_shape:
  assumes sf: "fresh_calls_so_far self tools N rn st" and lt: "rn < N"
    and fr: "finish_reason r = ''tool_calls''" and tc: "tool_calls (message r) = Some tcs"
  shows "successively (fresh_call_after self tools)
           (trace st @ ModelCall RoundCall (api_params self (messages st) tools) (Inr r)
              # (ToolBatch n tcs # tool_executions loads m n tcs w1) @ [ModelCall site p out])"
    and "successively batch_from_round_call
           (trace st @ ModelCall RoundCall (api_params self (messages st) tools) (Inr r)
              # ToolBatch n tcs # (tool_executions loads m n tcs w1 @ [ModelCall site p out]))"
proof -
  show "successively (fresh_call_after self tools)
           (trace st @ ModelCall RoundCall (api_params self (messages st) tools) (Inr r)
              # (ToolBatch n tcs # tool_executions loads m n tcs w1) @ [ModelCall site p out])"
  proof (rule successively_fresh_segment)
    show "successively (fresh_call_after self tools) (trace st)"
      using sf by (simp add: fresh_calls_so_far_def)
    show "trace st = [] \<or> fresh_call_after self tools (last (trace st))
            (ModelCall RoundCall (api_params self (messages st) tools) (Inr r))"
      using sf lt by (rule head_boundary)
    show "\<not> continues e" if "e \<in> set (ToolBatch n tcs # tool_executions loads m n tcs w1)" for e
      using that by (auto dest: continues_tool_executions)
  qed
  show "successively batch_from_round_call
           (trace st @ ModelCall RoundCall (api_params self (messages st) tools) (Inr r)
              # ToolBatch n tcs # (tool_executions loads m n tcs w1 @ [ModelCall site p out]))"
  proof (rule successively_batch_segment [OF _ fr tc])
    show "successively batch_from_round_call (trace st)"
      using sf by (simp add: fresh_calls_so_far_def)
    show "batch_rounds [e] = []"
      if "e \<in> set (tool_executions loads m n tcs w1 @ [ModelCall site p out])" for e
      using that by (auto dest: batch_rounds_tool_execution_event)
  qed
qed

lemma round_loop_fresh_calls:
  "fresh_calls_so_far self tools N rn st \<longrightarrow>
   fresh_calls_throughout self tools (trace (snd (round_loop self loads tools tm N rn st)))"
proof (induction rn st rule: round_loop_paths [where self = self and loads = loads
      and tools = tools and tm = tm and N = N])
  case (fallback rn st fout w4)
  show ?case
    by (auto intro!: throughout_single dest: so_far_fallback [OF _ fallback(1)])
next
  case (call_failed rn st e w1)
  show ?case
    by (auto intro!: throughout_single dest: head_boundary [OF _ call_failed(1)])
next
  case (direct rn st r w1)
  show ?case
    by (auto intro!: throughout_single dest: head_boundary [OF _ direct(1)])
next
  case (no_calls rn st r w1 m)
  show ?case
    by (auto intro!: throughout_single dest: head_boundary [OF _ no_calls(1)])
next
  case (last_round rn st r w1 m tcs st2 fout w4)
  show ?case
  proof
    assume sf: "fresh_calls_so_far self tools N rn st"
    from segment_shape [OF sf last_round(1,3,5), of "rn + 1" loads m w1 FinalSynthesis
        "final_request self (messages st2)" fout]
    show "fresh_calls_throughout self tools (trace (snd (final_result self st2 fout w4)))"
      by (simp add: fresh_calls_throughout_def last_round(6) trace_after_tools)
  qed
next
  case (decision_failed rn st r w1 m tcs st2 e w3)
  show ?case
  proof
    assume sf: "fresh_calls_so_far self tools N rn st"
    from segment_shape [OF sf decision_failed(1,3,5), of "rn + 1" loads m w1 ContinuationCheck
        "decision_request self (messages st2)" "Inl e"]
    show "fresh_calls_throughout self tools
            (trace (snd (Inl e :: error + string option, after_decision self st2 (Inl e) w3)))"
      by (simp add: fresh_calls_throughout_def decision_failed(6) trace_after_tools)
  qed
next
  case (answered rn st r w1 m tcs st2 d w3)
  show ?case
  proof
    assume sf: "fresh_calls_so_far self tools N rn st"
    from segment_shape [OF sf answered(1,3,5), of "rn + 1" loads m w1 ContinuationCheck
        "decision_request self (messages st2)" "Inr d"] answered(9)
    show "fresh_calls_throughout self tools
            (trace (snd (Inr (content (message d)) :: error + string option,
                         after_decision self st2 (Inr d) w3)))"
      by (simp add: fresh_calls_throughout_def answered(6) trace_after_tools)
  qed
next
  case (empty_answer rn st r w1 m tcs st2 d w3 st3 fout w4)
  show ?case
  proof
    assume sf: "fresh_calls_so_far self tools N rn st"
    let ?cc = "ModelCall ContinuationCheck (decision_request self (messages st2)) (Inr d)"
    let ?fs = "ModelCall FinalSynthesis (final_request self (messages st3)) fout"
    from segment_shape [OF sf empty_answer(1,3,5), of "rn + 1" loads m w1 ContinuationCheck
        "decision_request self (messages st2)" "Inr d"]
    have "successively (fresh_call_after self tools) (trace st3)"
      and "successively batch_from_round_call (trace st3)"
      by (simp_all add: empty_answer(6,11) trace_after_tools)
    moreover have "last (trace st3) = ?cc"
      by (simp add: empty_answer(11))
    ultimately show "fresh_calls_throughout self tools (trace (snd (final_result self st3 fout w4)))"
      using empty_answer(9)
      by (auto simp: fresh_calls_throughout_def
          intro!: successively_fresh_single successively_batch_single)
  qed
next
  case (continue rn st r w1 m tcs st2 d w3 st4)
  show ?case
  proof
    assume sf: "fresh_calls_so_far self tools N rn st"
    let ?cc = "ModelCall ContinuationCheck (decision_request self (messages st2)) (Inr d)"
    from segment_shape [OF sf continue(1,3,5), of "rn + 1" loads m w1 ContinuationCheck
        "decision_request self (messages st2)" "Inr d"]
    have "successively (fresh_call_after self tools) (trace st4)"
      and "successively batch_from_round_call (trace st4)"
      by (simp_all add: continue(6,10) trace_after_tools)
    moreover have "last (trace st4) = ?cc" and "trace st4 \<noteq> []"
      by (simp_all add: continue(10))
    moreover have "messages st4 =
        butlast (messages_param (decision_request self (messages st2))) @ [ModelMessage (message d)]"
      by (simp add: continue(10) decision_request_def base_params_def)
    ultimately have "fresh_calls_so_far self tools N (rn + 1) st4"
      using continue(7,9) by (simp add: fresh_calls_so_far_def)
    with continue(11)
    show "fresh_calls_throughout self tools
            (trace (snd (round_loop self loads tools tm N (rn + 1) st4)))"
      by simp
  qed
qed

lemma round_loop_starts_with_model_call:
  "\<exists>site p oc evs. trace (snd (round_loop self loads tools tm N rn st)) =
      trace st @ ModelCall site p oc # evs"
  by (induction rn st rule: round_loop_paths [where self = self and loads = loads
      and tools = tools and tm = tm and N = N])
     (auto simp: trace_after_tools)

text \<open>
  Claim C3 as the specification states it fails on the code: in the query above the
  continuation check requests a search, the next event is a call to the model and not
  the execution of the search, and the search is never executed.
\<close>

theorem continuation_request_not_executed_directly:
  "\<not> request_carried_over (trace (snd
      (generate_response scripted_generator Inr ''q'' None (Some [search_tool])
         (Some plain_tool_manager) 2 two_round_script))) \<and>
   List.map_filter executed_tool (trace (snd
      (generate_response scripted_generator Inr ''q'' None (Some [search_tool])
         (Some plain_tool_manager) 2 two_round_script))) = [''get_course_outline''] \<and>
   fst (generate_response scripted_generator Inr ''q'' None (Some [search_tool])
         (Some plain_tool_manager) 2 two_round_script) = Inr (Some ''Answer'')"
  by (simp add: run_simps two_round_script_def outline_call_def search_call_def
      request_carried_over_def List.map_filter_def)

text \<open>
  Claim C3, amended to what the code does. In every query, a continuation check whose
  response requests tools is followed at once by a fresh call of the next round: a call
  to the model with the tools, on the history the check saw followed by the message of
  the check's response. The tool calls of that response are not executed: a tool loop
  only ever follows the response of a round's call and runs the calls of that response.
  A check that asks to go on is never the last event, and the first event of a query is
  a call to the model.
\<close>

theorem continuation_request_starts_fresh_round:
  "fresh_calls_throughout self tools (trace (snd
      (generate_response self loads query history tools tm N w))) \<and>
   batch_rounds (take 1 (trace (snd
      (generate_response self loads query history tools tm N w)))) = []"
proof -
  let ?st0 = "\<lparr>messages = initial_messages self query history, world = w, trace = []\<rparr>"
  have "fresh_calls_so_far self tools N 0 ?st0"
    by (simp add: fresh_calls_so_far_def)
  then have "fresh_calls_throughout self tools (trace (snd
      (generate_response self loads query history tools tm N w)))"
    unfolding generate_response_round_loop using round_loop_fresh_calls by blast
  moreover have "batch_rounds (take 1 (trace (snd
      (generate_response self loads query history tools tm N w)))) = []"
    unfolding generate_response_round_loop
    using round_loop_starts_with_model_call [of self loads tools tm N 0 ?st0]
    by auto
  ultimately show ?thesis by simp
qed

text \<open>
  C3 as amended, at the query above: a continuation check asks to go on, and the trace
  has the shape the theorem gives.
\<close>

theorem continuation_request_starts_fresh_round_witness:
  "list_ex continues (trace (snd
      (generate_response scripted_generator Inr ''q'' None (Some [search_tool])
         (Some plain_tool_manager) 2 two_round_script))) \<and>
   fresh_calls_throughout scripted_generator (Some [search_tool]) (trace (snd
      (generate_response scripted_generator Inr ''q'' None (Some [search_tool])
         (Some plain_tool_manager) 2 two_round_script)))"
proof -
  have "list_ex continues (trace (snd
      (generate_response scripted_generator Inr ''q'' None (Some [search_tool])
         (Some plain_tool_manager) 2 two_round_script)))"
    by (simp add: run_simps two_round_script_def outline_call_def search_call_def)
  with continuation_request_starts_fresh_round [of scripted_generator "Some [search_tool]"
      Inr "''q''" None "Some plain_tool_manager" 2 two_round_script]
  show ?thesis by simp
qed

lemma tool_executions_not_calls [simp]:
  "list_ex is_final_synthesis (tool_executions loads m r tcs w) = False"
  "list_ex empty_answer_check (tool_executions loads m r tcs w) = False"
  "filter is_model_call (tool_executions loads m r tcs w) = []"
  by (induction tcs arbitrary: w; auto split: sum.splits prod.splits)+

lemma forced_synthesis_endsI:
  "\<lbrakk>trace (snd out) = before @ ToolBatch N tcs # execs @
       [ModelCall FinalSynthesis (final_request self (messages (snd out))) outcome];
    filter is_model_call execs = [];
    fst out = (case outcome of Inl e \<Rightarrow> Inl e | Inr r \<Rightarrow> Inr (content (message r)))\<rbrakk>
   \<Longrightarrow> forced_synthesis_ends self N out"
  unfolding forced_synthesis_ends_def final_request_def by blast

lemma round_loop_synthesis_accounted:
  "no_synthesis_yet N rn st \<longrightarrow>
   synthesis_accounted self N (round_loop self loads tools tm N rn st)"
proof (induction rn st rule: round_loop_paths [where self = self and loads = loads
      and tools = tools and tm = tm and N = N])
  case (fallback rn st fout w4)
  then show ?case by (simp add: no_synthesis_yet_def)
next
  case (call_failed rn st e w1)
  show ?case by (simp add: no_synthesis_yet_def synthesis_accounted_def)
next
  case (direct rn st r w1)
  show ?case by (simp add: no_synthesis_yet_def synthesis_accounted_def)
next
  case (no_calls rn st r w1 m)
  show ?case by (simp add: no_synthesis_yet_def synthesis_accounted_def)
next
  case (last_round rn st r w1 m tcs st2 fout w4)
  then have N: "rn + 1 = N" by simp
  have "forced_synthesis_ends self N (final_result self st2 fout w4)"
    by (rule forced_synthesis_endsI
          [where before = "trace st @ [ModelCall RoundCall (api_params self (messages st) tools) (Inr r)]"
             and tcs = tcs and execs = "tool_executions loads m (rn + 1) tcs w1"
             and outcome = fout])
       (simp_all add: last_round(6) trace_after_tools N)
  then show ?case
    by (simp add: no_synthesis_yet_def synthesis_accounted_def last_round(6) trace_after_tools N)
next
  case (decision_failed rn st r w1 m tcs st2 e w3)
  then show ?case
    by (simp add: no_synthesis_yet_def synthesis_accounted_def trace_after_tools)
next
  case (answered rn st r w1 m tcs st2 d w3)
  then show ?case
    by (simp add: no_synthesis_yet_def synthesis_accounted_def trace_after_tools)
next
  case (empty_answer rn st r w1 m tcs st2 d w3 st3 fout w4)
  then show ?case
    by (simp add: no_synthesis_yet_def synthesis_accounted_def trace_after_tools)
next
  case (continue rn st r w1 m tcs st2 d w3 st4)
  show ?case
  proof
    assume "no_synthesis_yet N rn st"
    then have "no_synthesis_yet N (rn + 1) st4"
      using continue(1-10) by (simp add: no_synthesis_yet_def trace_after_tools)
    with continue(11)
    show "synthesis_accounted self N (round_loop self loads tools tm N (rn + 1) st4)"
      by simp
  qed
qed

text \<open>
  Claim C2 as the specification states it fails on the code: in the second query a
  final-synthesis call is made although only the tools of round one (of two) were
  executed; the continuation check had returned no text.
\<close>

theorem final_synthesis_before_the_limit:
  "\<not> final_synthesis_exactly_at_limit 2 (trace (snd
      (generate_response scripted_generator Inr ''q'' None (Some [search_tool])
         (Some plain_tool_manager) 2 empty_answer_script))) \<and>
   batch_rounds (trace (snd
      (generate_response scripted_generator Inr ''q'' None (Some [search_tool])
         (Some plain_tool_manager) 2 empty_answer_script))) = [1] \<and>
   list_ex is_final_synthesis (trace (snd
      (generate_response scripted_generator Inr ''q'' None (Some [search_tool])
         (Some plain_tool_manager) 2 empty_answer_script))) \<and>
   fst (generate_response scripted_generator Inr ''q'' None (Some [search_tool])
         (Some plain_tool_manager) 2 empty_answer_script) = Inr (Some ''Synthesis'')"
  by (simp add: run_simps empty_answer_script_def outline_call_def
      final_synthesis_exactly_at_limit_def)

text \<open>
  Claim C2, amended to what the code does. With \<open>N \<ge> 1\<close> rounds allowed, a
  final-synthesis call is made exactly when the tools of round \<open>N\<close> have been
  executed, or a continuation check before that returned neither a tool request nor
  any text. When the tools of round \<open>N\<close> have been executed, no continuation check
  follows: the tool loop is followed directly by the final-synthesis call, made on the
  whole accumulated history with the closing prompt and without tools, and the content
  of its response is the answer.
\<close>

theorem final_synthesis_when_forced:
  "(1 \<le> N \<longrightarrow>
      synthesis_accounted self N (generate_response self loads query history tools tm N w)) \<and>
   tools_param (base_params self msgs) = None \<and>
   tool_choice (base_params self msgs) = None"
proof -
  have "no_synthesis_yet N 0
          \<lparr>messages = initial_messages self query history, world = w, trace = []\<rparr>"
    if "1 \<le> N"
    using that by (simp add: no_synthesis_yet_def)
  then have "1 \<le> N \<longrightarrow>
      synthesis_accounted self N (generate_response self loads query history tools tm N w)"
    unfolding generate_response_round_loop using round_loop_synthesis_accounted by blast
  then show ?thesis by (simp add: base_params_def)
qed

text \<open>
  C2 as amended, at the first query: the tools of round two are executed, the
  synthesis is forced and its response is the answer.
\<close>

theorem final_synthesis_when_forced_witness:
  "(1::int) \<le> 2 \<and>
   2 \<in> set (batch_rounds (trace (snd
      (generate_response scripted_generator Inr ''q'' None (Some [search_tool])
         (Some plain_tool_manager) 2 limit_script)))) \<and>
   list_ex is_final_synthesis (trace (snd
      (generate_response scripted_generator Inr ''q'' None (Some [search_tool])
         (Some plain_tool_manager) 2 limit_script))) \<and>
   forced_synthesis_ends scripted_generator 2
      (generate_response scripted_generator Inr ''q'' None (Some [search_tool])
         (Some plain_tool_manager) 2 limit_script) \<and>
   fst (generate_response scripted_generator Inr ''q'' None (Some [search_tool])
         (Some plain_tool_manager) 2 limit_script) = Inr (Some ''Synthesis'')"
proof -
  let ?run = "generate_response scripted_generator Inr ''q'' None (Some [search_tool])
         (Some plain_tool_manager) 2 limit_script"
  have b: "2 \<in> set (batch_rounds (trace (snd ?run)))"
    by (simp add: run_simps limit_script_def outline_call_def search_call_def)
  have a: "fst ?run = Inr (Some ''Synthesis'')"
    by (simp add: run_simps limit_script_def outline_call_def search_call_def)
  from final_synthesis_when_forced [of 2 scripted_generator Inr "''q''" None
      "Some [search_tool]" "Some plain_tool_manager" limit_script] b a
  show ?thesis by (simp add: synthesis_accounted_def)
qed

lemma round_loop_extends:
  "\<exists>evs more. trace (snd (round_loop self loads tools tm N rn st)) = trace st @ evs \<and>
     messages (snd (round_loop self loads tools tm N rn st)) = messages st @ more"
  by (induction rn st rule: round_loop_paths [where self = self and loads = loads
      and tools = tools and tm = tm and N = N])
     (auto simp: trace_after_tools messages_after_tools)

lemma handled_roundI:
  assumes "\<And>r w1 m tcs.
      \<lbrakk>rn < N; create self (api_params self (messages st) tools) (world st) = (Inr r, w1);
       finish_reason r = ''tool_calls''; tm = Some m; tool_calls (message r) = Some tcs\<rbrakk>
      \<Longrightarrow> \<exists>e rest more.
              is_model_call e \<and>
              trace (snd out) =
                trace st @
                ModelCall RoundCall (api_params self (messages st) tools) (Inr r) #
                ToolBatch (rn + 1) tcs #
                tool_executions loads m (rn + 1) tcs w1 @ e # rest \<and>
              messages (snd out) =
                messages st @
                ModelMessage (message r) #
                map (\<lambda>(tc, outcome). ToolResult (call_id tc) (result_content outcome))
                  (zip tcs (tool_outcomes loads m tcs w1)) @ more"
  shows "handled_round self loads tools tm N rn st out"
  unfolding handled_round_def using assms by blast

lemma round_loop_handled_round:
  "handled_round self loads tools tm N rn st (round_loop self loads tools tm N rn st)"
proof (induction rn st rule: round_loop_paths [where self = self and loads = loads
      and tools = tools and tm = tm and N = N])
  case (fallback rn st fout w4)
  then show ?case by (simp add: handled_round_def)
next
  case (call_failed rn st e w1)
  then show ?case by (simp add: handled_round_def)
next
  case (direct rn st r w1)
  then show ?case by (auto simp: handled_round_def)
next
  case (no_calls rn st r w1 m)
  then show ?case by (simp add: handled_round_def)
next
  case (last_round rn st r w1 m tcs st2 fout w4)
  show ?case
  proof (rule handled_roundI)
    fix r' w1' m' tcs'
    assume "create self (api_params self (messages st) tools) (world st) = (Inr r', w1')"
      "tm = Some m'" "tool_calls (message r') = Some tcs'"
    with last_round have eq: "r' = r" "w1' = w1" "m' = m" "tcs' = tcs" by simp_all
    show "\<exists>e rest more.
              is_model_call e \<and>
              trace (snd (final_result self st2 fout w4)) =
                trace st @
                ModelCall RoundCall (api_params self (messages st) tools) (Inr r') #
                ToolBatch (rn + 1) tcs' #
                tool_executions loads m' (rn + 1) tcs' w1' @ e # rest \<and>
              messages (snd (final_result self st2 fout w4)) =
                messages st @
                ModelMessage (message r') #
                map (\<lambda>(tc, outcome). ToolResult (call_id tc) (result_content outcome))
                  (zip tcs' (tool_outcomes loads m' tcs' w1')) @ more"
      unfolding eq
      by (rule exI [where x = "ModelCall FinalSynthesis (final_request self (messages st2)) fout"],
          rule exI [where x = "[]"], rule exI [where x = "[]"])
         (simp add: last_round(6) trace_after_tools messages_after_tools)
  qed
next
  case (decision_failed rn st r w1 m tcs st2 e w3)
  show ?case
  proof (rule handled_roundI)
    fix r' w1' m' tcs'
    assume "create self (api_params self (messages st) tools) (world st) = (Inr r', w1')"
      "tm = Some m'" "tool_calls (message r') = Some tcs'"
    with decision_failed have eq: "r' = r" "w1' = w1" "m' = m" "tcs' = tcs" by simp_all
    show "\<exists>ev rest more.
              is_model_call ev \<and>
              trace (snd (Inl e :: error + string option, after_decision self st2 (Inl e) w3)) =
                trace st @
                ModelCall RoundCall (api_params self (messages st) tools) (Inr r') #
                ToolBatch (rn + 1) tcs' #
                tool_executions loads m' (rn + 1) tcs' w1' @ ev # rest \<and>
              messages (snd (Inl e :: error + string option, after_decision self st2 (Inl e) w3)) =
                messages st @
                ModelMessage (message r') #
                map (\<lambda>(tc, outcome). ToolResult (call_id tc) (result_content outcome))
                  (zip tcs' (tool_outcomes loads m' tcs' w1')) @ more"
      unfolding eq
      by (rule exI [where x = "ModelCall ContinuationCheck
              (decision_request self (messages st2)) (Inl e)"],
          rule exI [where x = "[]"], rule exI [where x = "[]"])
         (simp add: decision_failed(6) trace_after_tools messages_after_tools)
  qed
next
  case (answered rn st r w1 m tcs st2 d w3)
  show ?case
  proof (rule handled_roundI)
    fix r' w1' m' tcs'
    assume "create self (api_params self (messages st) tools) (world st) = (Inr r', w1')"
      "tm = Some m'" "tool_calls (message r') = Some tcs'"
    with answered have eq: "r' = r" "w1' = w1" "m' = m" "tcs' = tcs" by simp_all
    show "\<exists>ev rest more.
              is_model_call ev \<and>
              trace (snd (Inr (content (message d)) :: error + string option,
                          after_decision self st2 (Inr d) w3)) =
                trace st @
                ModelCall RoundCall (api_params self (messages st) tools) (Inr r') #
                ToolBatch (rn + 1) tcs' #
                tool_executions loads m' (rn + 1) tcs' w1' @ ev # rest \<and>
              messages (snd (Inr (content (message d)) :: error + string option,
                             after_decision self st2 (Inr d) w3)) =
                messages st @
                ModelMessage (message r') #
                map (\<lambda>(tc, outcome). ToolResult (call_id tc) (result_content outcome))
                  (zip tcs' (tool_outcomes loads m' tcs' w1')) @ more"
      unfolding eq
      by (rule exI [where x = "ModelCall ContinuationCheck
              (decision_request self (messages st2)) (Inr d)"],
          rule exI [where x = "[]"], rule exI [where x = "[]"])
         (simp add: answered(6) trace_after_tools messages_after_tools)
  qed
next
  case (empty_answer rn st r w1 m tcs st2 d w3 st3 fout w4)
  show ?case
  proof (rule handled_roundI)
    fix r' w1' m' tcs'
    assume "create self (api_params self (messages st) tools) (world st) = (Inr r', w1')"
      "tm = Some m'" "tool_calls (message r') = Some tcs'"
    with empty_answer have eq: "r' = r" "w1' = w1" "m' = m" "tcs' = tcs" by simp_all
    show "\<exists>ev rest more.
              is_model_call ev \<and>
              trace (snd (final_result self st3 fout w4)) =
                trace st @
                ModelCall RoundCall (api_params self (messages st) tools) (Inr r') #
                ToolBatch (rn + 1) tcs' #
                tool_executions loads m' (rn + 1) tcs' w1' @ ev # rest \<and>
              messages (snd (final_result self st3 fout w4)) =
                messages st @
                ModelMessage (message r') #
                map (\<lambda>(tc, outcome). ToolResult (call_id tc) (result_content outcome))
                  (zip tcs' (tool_outcomes loads m' tcs' w1')) @ more"
      unfolding eq
      by (rule exI [where x = "ModelCall ContinuationCheck
              (decision_request self (messages st2)) (Inr d)"],
          rule exI [where x = "[ModelCall FinalSynthesis (final_request self (messages st3)) fout]"],
          rule exI [where x = "[]"])
         (simp add: empty_answer(6,11) trace_after_tools messages_after_tools)
  qed
next
  case (continue rn st r w1 m tcs st2 d w3 st4)
  show ?case
  proof (rule handled_roundI)
    fix r' w1' m' tcs'
    assume "create self (api_params self (messages st) tools) (world st) = (Inr r', w1')"
      "tm = Some m'" "tool_calls (message r') = Some tcs'"
    with continue have eq: "r' = r" "w1' = w1" "m' = m" "tcs' = tcs" by simp_all
    let ?out = "round_loop self loads tools tm N (rn + 1) st4"
    obtain evs more where ext: "trace (snd ?out) = trace st4 @ evs"
        "messages (snd ?out) = messages st4 @ more"
      using round_loop_extends [of self loads tools tm N "rn + 1" st4] by blast
    have t4: "trace st4 =
        trace st @ ModelCall RoundCall (api_params self (messages st) tools) (Inr r) #
        ToolBatch (rn + 1) tcs # tool_executions loads m (rn + 1) tcs w1 @
        [ModelCall ContinuationCheck (decision_request self (messages st2)) (Inr d)]"
      and m4: "messages st4 =
        messages st @ ModelMessage (message r) #
        map (\<lambda>(tc, outcome). ToolResult (call_id tc) (result_content outcome))
          (zip tcs (tool_outcomes loads m tcs w1)) @ [ModelMessage (message d)]"
      using continue(6,10) by (simp_all add: trace_after_tools messages_after_tools)
    show "\<exists>ev rest more.
              is_model_call ev \<and>
              trace (snd ?out) =
                trace st @
                ModelCall RoundCall (api_params self (messages st) tools) (Inr r') #
                ToolBatch (rn + 1) tcs' #
                tool_executions loads m' (rn + 1) tcs' w1' @ ev # rest \<and>
              messages (snd ?out) =
                messages st @
                ModelMessage (message r') #
                map (\<lambda>(tc, outcome). ToolResult (call_id tc) (result_content outcome))
                  (zip tcs' (tool_outcomes loads m' tcs' w1')) @ more"
      unfolding eq
      by (rule exI [where x = "ModelCall ContinuationCheck
              (decision_request self (messages st2)) (Inr d)"],
          rule exI [where x = evs],
          rule exI [where x = "ModelMessage (message d) # more"])
         (simp add: ext t4 m4)
  qed
qed

lemma dispatched_calls_simps [simp]:
  "dispatched_calls [] = []"
  "dispatched_calls (xs @ ys) = dispatched_calls xs @ dispatched_calls ys"
  "dispatched_calls (ModelCall site p out # xs) = dispatched_calls xs"
  "dispatched_calls (ToolBatch r tcs # xs) = tcs @ dispatched_calls xs"
  "dispatched_calls (ToolExecution r n k oc # xs) = dispatched_calls xs"
  by (simp_all add: dispatched_calls_def)

lemma dispatched_calls_tool_executions [simp]:
  "dispatched_calls (tool_executions loads m r tcs w) = []"
  by (induction tcs arbitrary: w) (auto split: sum.splits prod.splits)

lemma answered_ids_append:
  "List.map_filter answered_call_id (xs @ ys) =
     List.map_filter answered_call_id xs @ List.map_filter answered_call_id ys"
  by (simp add: List.map_filter_def)

lemma answered_ids_after_tools:
  "List.map_filter answered_call_id (messages (after_tools loads m r resp tcs st)) =
     List.map_filter answered_call_id (messages st) @ map call_id tcs"
proof -
  have "List.map_filter answered_call_id [ModelMessage (message resp)] = []"
    by (simp add: List.map_filter_def)
  then show ?thesis
    using answered_call_ids [of tcs "tool_outcomes loads m tcs (world st)"]
    by (simp add: messages_after_tools answered_ids_append length_tool_outcomes
        del: append.simps)
qed

lemma round_loop_answers_dispatched:
  "List.map_filter answered_call_id (messages st) = map call_id (dispatched_calls (trace st)) \<longrightarrow>
   List.map_filter answered_call_id (messages (snd (round_loop self loads tools tm N rn st))) =
     map call_id (dispatched_calls (trace (snd (round_loop self loads tools tm N rn st))))"
proof (induction rn st rule: round_loop_paths [where self = self and loads = loads
      and tools = tools and tm = tm and N = N])
  case (no_calls rn st r w1 m)
  show ?case by (simp add: answered_ids_append)
next
  case (continue rn st r w1 m tcs st2 d w3 st4)
  have "List.map_filter answered_call_id (messages st4) =
          List.map_filter answered_call_id (messages st2)"
    using continue(10) by (simp add: answered_ids_append)
  moreover have "dispatched_calls (trace st4) = dispatched_calls (trace st2)"
    using continue(10) by simp
  moreover have "List.map_filter answered_call_id (messages st2) =
          List.map_filter answered_call_id (messages st) @ map call_id tcs"
    using continue(6) by (simp add: answered_ids_after_tools)
  moreover have "dispatched_calls (trace st2) = dispatched_calls (trace st) @ tcs"
    using continue(6) by (simp add: trace_after_tools)
  ultimately show ?case using continue(11) by simp
qed (simp_all add: answered_ids_after_tools trace_after_tools)

lemma dispatched_after_left:
  "\<not> requests_tools supplied e \<Longrightarrow> dispatched_after supplied e e'"
  by (cases "(supplied, e)" rule: requests_tools.cases) auto

lemma requests_tools_tool_executions:
  "e \<in> set (tool_executions loads m r tcs w) \<Longrightarrow> \<not> requests_tools supplied e"
  by (auto dest: tool_executions_events)

lemma successively_dispatch_single:
  assumes "successively (dispatched_after supplied) tr"
    and "tr = [] \<or> \<not> requests_tools supplied (last tr)"
  shows "successively (dispatched_after supplied) (tr @ [x])"
  using assms by (auto simp: successively_append_iff intro: dispatched_after_left)

lemma successively_dispatch_segment:
  assumes "successively (dispatched_after supplied) tr"
    and "tr = [] \<or> \<not> requests_tools supplied (last tr)"
    and "tool_calls (message r) = Some tcs"
    and "\<And>e. e \<in> set mid \<Longrightarrow> \<not> requests_tools supplied e"
  shows "successively (dispatched_after supplied)
           (tr @ ModelCall RoundCall p (Inr r) # ToolBatch n tcs # mid)"
proof -
  have a: "successively (dispatched_after supplied) (tr @ [ModelCall RoundCall p (Inr r)])"
    using assms(1,2) by (rule successively_dispatch_single)
  have "dispatched_after supplied e e'" if "e \<in> set (ToolBatch n tcs # mid)" for e e'
    using that assms(4) by (auto intro: dispatched_after_left)
  then have b: "successively (dispatched_after supplied) (ToolBatch n tcs # mid)"
    using successively_left_trivial [of "ToolBatch n tcs # mid" "dispatched_after supplied" "[]"]
    by simp
  have "successively (dispatched_after supplied)
          ((tr @ [ModelCall RoundCall p (Inr r)]) @ ToolBatch n tcs # mid)"
    using a b assms(3) by (simp add: successively_append_iff)
  then show ?thesis by simp
qed

lemma dispatch_segment_shape:
  assumes "dispatched_so_far supplied st" and "tool_calls (message r) = Some tcs"
    and "\<And>e. e \<in> set tail \<Longrightarrow> \<not> requests_tools supplied e"
  shows "successively (dispatched_after supplied)
           (trace st @ ModelCall RoundCall p (Inr r) # ToolBatch n tcs #
            tool_executions loads m n tcs w @ tail)"
  using assms
  by (intro successively_dispatch_segment)
     (auto simp: dispatched_so_far_def dest: requests_tools_tool_executions)

lemma round_loop_dispatches:
  "dispatched_so_far (tm \<noteq> None) st \<longrightarrow>
   successively (dispatched_after (tm \<noteq> None))
     (trace (snd (round_loop self loads tools tm N rn st)))"
proof (induction rn st rule: round_loop_paths [where self = self and loads = loads
      and tools = tools and tm = tm and N = N])
  case (fallback rn st fout w4)
  show ?case by (auto simp: dispatched_so_far_def intro!: successively_dispatch_single)
next
  case (call_failed rn st e w1)
  show ?case by (auto simp: dispatched_so_far_def intro!: successively_dispatch_single)
next
  case (direct rn st r w1)
  show ?case by (auto simp: dispatched_so_far_def intro!: successively_dispatch_single)
next
  case (no_calls rn st r w1 m)
  show ?case by (auto simp: dispatched_so_far_def intro!: successively_dispatch_single)
next
  case (last_round rn st r w1 m tcs st2 fout w4)
  show ?case
  proof
    assume sf: "dispatched_so_far (tm \<noteq> None) st"
    have "successively (dispatched_after (tm \<noteq> None))
            (trace st @ ModelCall RoundCall (api_params self (messages st) tools) (Inr r) #
             ToolBatch (rn + 1) tcs # tool_executions loads m (rn + 1) tcs w1 @
             [ModelCall FinalSynthesis (final_request self (messages st2)) fout])"
      using sf last_round(5) by (intro dispatch_segment_shape) auto
    then show "successively (dispatched_after (tm \<noteq> None)) (trace (snd (final_result self st2 fout w4)))"
      by (simp add: last_round(6) trace_after_tools)
  qed
next
  case (decision_failed rn st r w1 m tcs st2 e w3)
  show ?case
  proof
    assume sf: "dispatched_so_far (tm \<noteq> None) st"
    have "successively (dispatched_after (tm \<noteq> None))
            (trace st @ ModelCall RoundCall (api_params self (messages st) tools) (Inr r) #
             ToolBatch (rn + 1) tcs # tool_executions loads m (rn + 1) tcs w1 @
             [ModelCall ContinuationCheck (decision_request self (messages st2)) (Inl e)])"
      using sf decision_failed(5) by (intro dispatch_segment_shape) auto
    then show "successively (dispatched_after (tm \<noteq> None)) (trace (snd (Inl e :: error + string option, after_decision self st2 (Inl e) w3)))"
      by (simp add: decision_failed(6) trace_after_tools)
  qed
next
  case (answered rn st r w1 m tcs st2 d w3)
  show ?case
  proof
    assume sf: "dispatched_so_far (tm \<noteq> None) st"
    have "successively (dispatched_after (tm \<noteq> None))
            (trace st @ ModelCall RoundCall (api_params self (messages st) tools) (Inr r) #
             ToolBatch (rn + 1) tcs # tool_executions loads m (rn + 1) tcs w1 @
             [ModelCall ContinuationCheck (decision_request self (messages st2)) (Inr d)])"
      using sf answered(5) by (intro dispatch_segment_shape) auto
    then show "successively (dispatched_after (tm \<noteq> None)) (trace (snd (Inr (content (message d)) :: error + string option, after_decision self st2 (Inr d) w3)))"
      by (simp add: answered(6) trace_after_tools)
  qed
next
  case (empty_answer rn st r w1 m tcs st2 d w3 st3 fout w4)
  show ?case
  proof
    assume sf: "dispatched_so_far (tm \<noteq> None) st"
    have "successively (dispatched_after (tm \<noteq> None))
            (trace st @ ModelCall RoundCall (api_params self (messages st) tools) (Inr r) #
             ToolBatch (rn + 1) tcs # tool_executions loads m (rn + 1) tcs w1 @
             [ModelCall ContinuationCheck (decision_request self (messages st2)) (Inr d),
              ModelCall FinalSynthesis (final_request self (messages st3)) fout])"
      using sf empty_answer(5) by (intro dispatch_segment_shape) auto
    then show "successively (dispatched_after (tm \<noteq> None)) (trace (snd (final_result self st3 fout w4)))"
      by (simp add: empty_answer(6,11) trace_after_tools)
  qed
next
  case (continue rn st r w1 m tcs st2 d w3 st4)
  show ?case
  proof
    assume sf: "dispatched_so_far (tm \<noteq> None) st"
    have t4: "trace st4 =
        trace st @ ModelCall RoundCall (api_params self (messages st) tools) (Inr r) #
        ToolBatch (rn + 1) tcs # tool_executions loads m (rn + 1) tcs w1 @
        [ModelCall ContinuationCheck (decision_request self (messages st2)) (Inr d)]"
      using continue(6,10) by (simp add: trace_after_tools)
    have "successively (dispatched_after (tm \<noteq> None)) (trace st4)"
      unfolding t4 using sf continue(5)
      by (intro dispatch_segment_shape) simp_all
    moreover have "\<not> requests_tools (tm \<noteq> None) (last (trace st4))"
      by (simp add: t4)
    ultimately have "dispatched_so_far (tm \<noteq> None) st4"
      by (simp add: dispatched_so_far_def)
    with continue(11)
    show "successively (dispatched_after (tm \<noteq> None))
            (trace (snd (round_loop self loads tools tm N (rn + 1) st4)))"
      by simp
  qed
qed

lemma round_loop_fails_by_model_only:
  "fails_by_model_only (round_loop self loads tools tm N rn st)"
  by (induction rn st rule: round_loop_paths [where self = self and loads = loads
      and tools = tools and tm = tm and N = N])
     (simp_all add: fails_by_model_only_def split: sum.splits)

text \<open>
  Claim C5 as the specification states it fails on the code: a tool call that the model
  requests in its response to a continuation check is appended to the conversation and
  never executed, so it has no tool result. In the query where the continuation check of
  round one requests a search, the conversation ends with two requests and one result.
\<close>

theorem continuation_request_gets_no_result:
  "\<not> every_request_answered (messages (snd
      (generate_response scripted_generator Inr ''q'' None (Some [search_tool])
         (Some plain_tool_manager) 2 two_round_script))) \<and>
   concat (map requested_ids (messages (snd
      (generate_response scripted_generator Inr ''q'' None (Some [search_tool])
         (Some plain_tool_manager) 2 two_round_script)))) = [''call_1'', ''call_2''] \<and>
   List.map_filter answered_call_id (messages (snd
      (generate_response scripted_generator Inr ''q'' None (Some [search_tool])
         (Some plain_tool_manager) 2 two_round_script))) = [''call_1'']"
  by (simp add: run_simps two_round_script_def outline_call_def search_call_def
      every_request_answered_def List.map_filter_def)

text \<open>
  Claim C5, amended to what the code does. In every query, whenever the response to a
  round's own call requests tools while a tool manager is supplied, the tool loop over
  the calls of that response follows at once; seen from the head of the loop at any
  round and in any state, the trace goes on with the executions of the calls that
  parse, in order, and then with a further call to the model, and the conversation
  goes on with the message of the response and exactly one tool result for each
  requested call, in the order requested and under the id of the call: the string the
  tool returned, or \<^verbatim>\<open>"Tool execution failed: "\<close> followed by the cause when the tool
  raised or the argument payload did not parse. Whatever a call does, the remaining
  calls are handled after it. The tool results of the final conversation are, one for
  one and in order, the calls of the tool loops that were run. A query ends with an
  exception only when a call to the model raised or a response announced tool calls
  and carried none: no failure of a tool ends it.
\<close>

theorem tool_calls_of_a_round_are_handled:
  fixes self :: "'w ai_generator" and tm :: "('w, 'k) tool_manager option"
    and m :: "('w, 'k) tool_manager"
  shows "handled_round self loads tools tm N rn st (round_loop self loads tools tm N rn st) \<and>
         successively (dispatched_after (tm \<noteq> None)) (trace (snd
           (generate_response self loads query history tools tm N w))) \<and>
         List.map_filter answered_call_id (messages (snd
           (generate_response self loads query history tools tm N w))) =
           map call_id (dispatched_calls (trace (snd
             (generate_response self loads query history tools tm N w)))) \<and>
         fails_by_model_only (generate_response self loads query history tools tm N w) \<and>
         messages (execute_tool_calls loads m r [tc] st) =
           messages st @
           [ToolResult (call_id tc)
              (case loads (function_arguments tc) of
                 Inl e \<Rightarrow> ''Tool execution failed: '' @ e
               | Inr kwargs \<Rightarrow>
                   (case fst (m (function_name tc) kwargs (world st)) of
                      Inl e \<Rightarrow> ''Tool execution failed: '' @ e
                    | Inr tool_result \<Rightarrow> tool_result))] \<and>
         execute_tool_calls loads m r (tcs @ tcs') st =
           execute_tool_calls loads m r tcs' (execute_tool_calls loads m r tcs st) \<and>
         length (tool_outcomes loads m tcs (world st)) = length tcs \<and>
         messages (execute_tool_calls loads m r tcs st) =
           messages st @
           map (\<lambda>(tc, outcome). ToolResult (call_id tc) (result_content outcome))
             (zip tcs (tool_outcomes loads m tcs (world st))) \<and>
         trace (execute_tool_calls loads m r tcs st) =
           trace st @ tool_executions loads m r tcs (world st) \<and>
         List.map_filter executed_tool (tool_executions loads m r tcs (world st)) =
           map function_name (filter (\<lambda>tc. \<not> isl (loads (function_arguments tc))) tcs)"
proof -
  let ?st0 = "\<lparr>messages = initial_messages self query history, world = w, trace = []\<rparr>
                :: ('w, 'k) run_state"
  have g1: "successively (dispatched_after (tm \<noteq> None)) (trace (snd
           (generate_response self loads query history tools tm N w)))"
    unfolding generate_response_round_loop
    using round_loop_dispatches [of tm ?st0 self loads tools N 0]
    by (simp add: dispatched_so_far_def)
  have g2: "List.map_filter answered_call_id (messages (snd
           (generate_response self loads query history tools tm N w))) =
           map call_id (dispatched_calls (trace (snd
             (generate_response self loads query history tools tm N w))))"
    unfolding generate_response_round_loop
    using round_loop_answers_dispatched [of ?st0 self loads tools tm N 0]
    by (simp add: initial_messages_def List.map_filter_def)
  have g3: "fails_by_model_only (generate_response self loads query history tools tm N w)"
    unfolding generate_response_round_loop by (rule round_loop_fails_by_model_only)
  have one: "messages (execute_tool_calls loads m r [tc] st) =
           messages st @
           [ToolResult (call_id tc)
              (case loads (function_arguments tc) of
                 Inl e \<Rightarrow> ''Tool execution failed: '' @ e
               | Inr kwargs \<Rightarrow>
                   (case fst (m (function_name tc) kwargs (world st)) of
                      Inl e \<Rightarrow> ''Tool execution failed: '' @ e
                    | Inr tool_result \<Rightarrow> tool_result))]"
    by (auto split: sum.splits prod.splits)
  from round_loop_handled_round [of self loads tools tm N rn st] g1 g2 g3 one
  show ?thesis
    by (simp only: execute_tool_calls_append length_tool_outcomes execute_tool_calls_messages
          execute_tool_calls_trace executed_tool_executions simp_thms)
qed

text \<open>
  C5 as amended, at the query above: the response of round one requests three calls
  (the first payload does not parse, the tool of the second raises, the third
  succeeds), a tool manager is supplied, and the conversation ends with the request and
  its three results, in order; the query returns the answer of the continuation check.
\<close>

theorem tool_calls_of_a_round_are_handled_witness:
  "(0::int) < 2 \<and>
   create scripted_generator
     (api_params scripted_generator (initial_messages scripted_generator ''q'' None)
        (Some [search_tool])) mixed_script
     = (Inr (tool_request three_calls), [text_response (Some ''Answer'')]) \<and>
   finish_reason (tool_request three_calls) = ''tool_calls'' \<and>
   tool_calls (message (tool_request three_calls)) = Some three_calls \<and>
   handled_round scripted_generator strict_loads (Some [search_tool])
     (Some failing_tool_manager) 2 0
     \<lparr>messages = initial_messages scripted_generator ''q'' None, world = mixed_script,
      trace = []\<rparr>
     (generate_response scripted_generator strict_loads ''q'' None (Some [search_tool])
        (Some failing_tool_manager) 2 mixed_script) \<and>
   messages (snd (generate_response scripted_generator strict_loads ''q'' None
       (Some [search_tool]) (Some failing_tool_manager) 2 mixed_script)) =
     initial_messages scripted_generator ''q'' None @
     [ModelMessage (message (tool_request three_calls)),
      ToolResult ''call_1''
        ''Tool execution failed: Expecting property name enclosed in double quotes: line 1 column 2 (char 1)'',
      ToolResult ''call_2'' ''Tool execution failed: outline unavailable'',
      ToolResult ''call_3'' ''Tool result''] \<and>
   fst (generate_response scripted_generator strict_loads ''q'' None
       (Some [search_tool]) (Some failing_tool_manager) 2 mixed_script) =
     Inr (Some ''Answer'')"
proof -
  let ?st0 = "\<lparr>messages = initial_messages scripted_generator ''q'' None,
      world = mixed_script, trace = []\<rparr> :: (response list, string) run_state"
  have c: "create scripted_generator
     (api_params scripted_generator (initial_messages scripted_generator ''q'' None)
        (Some [search_tool])) mixed_script
     = (Inr (tool_request three_calls), [text_response (Some ''Answer'')])"
    by (simp add: scripted_generator_def scripted_create_def mixed_script_def)
  have f: "finish_reason (tool_request three_calls) = ''tool_calls''"
      "tool_calls (message (tool_request three_calls)) = Some three_calls"
    by (simp_all add: tool_request_def)
  have run: "messages (snd (generate_response scripted_generator strict_loads ''q'' None
       (Some [search_tool]) (Some failing_tool_manager) 2 mixed_script)) =
     initial_messages scripted_generator ''q'' None @
     [ModelMessage (message (tool_request three_calls)),
      ToolResult ''call_1''
        ''Tool execution failed: Expecting property name enclosed in double quotes: line 1 column 2 (char 1)'',
      ToolResult ''call_2'' ''Tool execution failed: outline unavailable'',
      ToolResult ''call_3'' ''Tool result'']"
    "fst (generate_response scripted_generator strict_loads ''q'' None
       (Some [search_tool]) (Some failing_tool_manager) 2 mixed_script) =
     Inr (Some ''Answer'')"
    by (simp_all add: run_simps mixed_script_def three_calls_def strict_loads_def
        failing_tool_manager_def initial_messages_def)
  from tool_calls_of_a_round_are_handled [where self = scripted_generator
      and loads = strict_loads and tools = "Some [search_tool]"
      and tm = "Some failing_tool_manager" and N = 2 and rn = 0 and st = ?st0]
  have "handled_round scripted_generator strict_loads (Some [search_tool])
     (Some failing_tool_manager) 2 0 ?st0
     (round_loop scripted_generator strict_loads (Some [search_tool])
        (Some failing_tool_manager) 2 0 ?st0)"
    by blast
  then show ?thesis
    using c f run by (simp add: generate_response_round_loop)
qed

section \<open>Properties of the retrieval engine\<close>

text \<open>
  Claim C7. \<open>build_filter\<close> is a function of its two arguments alone, and its value
  on each of the four shapes of input is the one of the table; the four shapes cover
  every input, so no other shape of output exists.
\<close>

theorem build_filter_table:
  "build_filter None None = None \<and>
   build_filter (Some c) None = Some (CourseTitle c) \<and>
   build_filter None (Some n) = Some (LessonNumber n) \<and>
   build_filter (Some c) (Some n) = Some (AndFilter [CourseTitle c, LessonNumber n]) \<and>
   build_filter (Some ''C'') None = Some (CourseTitle ''C'') \<and>
   build_filter None (Some 1) = Some (LessonNumber 1) \<and>
   build_filter (Some ''C'') (Some 1) = Some (AndFilter [CourseTitle ''C'', LessonNumber 1]) \<and>
   (build_filter t l = None \<or>
    (\<exists>c'. build_filter t l = Some (CourseTitle c')) \<or>
    (\<exists>n'. build_filter t l = Some (LessonNumber n')) \<or>
    (\<exists>c' n'. build_filter t l = Some (AndFilter [CourseTitle c', LessonNumber n'])))"
  by (cases t; cases l) (simp_all add: build_filter_def)

text \<open>
  Claim C8. When the catalog returns no course for the name given, \<open>search\<close> returns
  an empty result set whose error is \<^verbatim>\<open>No course found matching '<name>'\<close>, and sends
  no query to the content index.
\<close>

theorem unresolved_course_never_queries_content:
  assumes "catalog name = None"
  shows "search catalog content_index k query (Some name) lesson_number =
           (\<lparr>documents = [], metadata = [], distances = [],
             error = Some (''No course found matching '' @ [CHR 0x27] @ name @ [CHR 0x27])\<rparr>,
            []) \<and>
         is_empty (fst (search catalog content_index k query (Some name) lesson_number)) \<and>
         snd (search catalog content_index k query (Some name) lesson_number) = []"
  using assms
  by (simp add: search_def resolve_course_name_def empty_results_def is_empty_def)

text \<open>C8 at the test's input: an empty catalog and the name \<^verbatim>\<open>NonexistentCourse\<close>.\<close>

theorem unresolved_course_never_queries_content_witness:
  "empty_catalog ''NonexistentCourse'' = None \<and>
   error (fst (search empty_catalog (\<lambda>q. Inr [(''doc'', python_chunk, 0::int)]) 5 ''Python''
            (Some ''NonexistentCourse'') None)) =
     Some (''No course found matching '' @ [CHR 0x27] @ ''NonexistentCourse'' @ [CHR 0x27]) \<and>
   is_empty (fst (search empty_catalog (\<lambda>q. Inr [(''doc'', python_chunk, 0::int)]) 5 ''Python''
            (Some ''NonexistentCourse'') None)) \<and>
   snd (search empty_catalog (\<lambda>q. Inr [(''doc'', python_chunk, 0::int)]) 5 ''Python''
            (Some ''NonexistentCourse'') None) = []"
  using unresolved_course_never_queries_content [of empty_catalog "''NonexistentCourse''"
      "\<lambda>q. Inr [(''doc'', python_chunk, 0::int)]" 5 "''Python''" None]
  by (simp add: empty_catalog_def is_empty_def)

lemma remdups_snoc:
  "remdups (xs @ [l]) = filter (\<lambda>x. x \<noteq> l) (remdups xs) @ [l]"
  by (induction xs) auto

lemma first_occurrences_Cons:
  "rev (remdups (rev (l # ls))) = l # filter (\<lambda>x. x \<noteq> l) (rev (remdups (rev ls)))"
  by (simp add: remdups_snoc rev_filter)

lemma track_sources_eq:
  "track_sources tracked labels =
     tracked @ filter (\<lambda>x. x \<notin> set tracked) (rev (remdups (rev labels)))"
proof (induction labels arbitrary: tracked)
  case Nil
  show ?case by simp
next
  case (Cons l ls)
  let ?firsts = "rev (remdups (rev ls))"
  show ?case
  proof (cases "l \<in> set tracked")
    case True
    have "filter (\<lambda>x. x \<noteq> l \<and> x \<notin> set tracked) ?firsts =
          filter (\<lambda>x. x \<notin> set tracked) ?firsts"
      using True by (intro filter_cong) auto
    then have "filter (\<lambda>x. x \<notin> set tracked) (l # filter (\<lambda>x. x \<noteq> l) ?firsts) =
          filter (\<lambda>x. x \<notin> set tracked) ?firsts"
      using True by simp
    moreover have "track_sources tracked (l # ls) =
          tracked @ filter (\<lambda>x. x \<notin> set tracked) ?firsts"
      using True Cons [of tracked] by simp
    ultimately show ?thesis
      by (simp only: first_occurrences_Cons)
  next
    case False
    have "filter (\<lambda>x. x \<notin> set (tracked @ [l])) ?firsts =
          filter (\<lambda>x. x \<noteq> l \<and> x \<notin> set tracked) ?firsts"
      by (intro filter_cong) auto
    then have "(tracked @ [l]) @ filter (\<lambda>x. x \<notin> set (tracked @ [l])) ?firsts =
          tracked @ filter (\<lambda>x. x \<notin> set tracked) (l # filter (\<lambda>x. x \<noteq> l) ?firsts)"
      using False by simp
    moreover have "track_sources tracked (l # ls) =
          (tracked @ [l]) @ filter (\<lambda>x. x \<notin> set (tracked @ [l])) ?firsts"
      using False Cons [of "tracked @ [l]"] by simp
    ultimately show ?thesis
      by (simp only: first_occurrences_Cons)
  qed
qed

lemma py_str_small:
  "py_str 1 = ''1''" "py_str 2 = ''2''"
  by (simp_all add: py_str_def decimal_digits.simps digit_char_def)

text \<open>
  Claim C9. The list of sources tracked for a result set is the list of the labels of
  its results with every label kept at its first occurrence and dropped afterwards:
  the first label is kept and removed from the rest, and so on. It has no duplicates
  and holds exactly the labels of the results, however many chunks share one; the
  labels A, A, B give A, B.
\<close>

theorem tracked_sources_first_occurrences:
  "format_results_sources results =
     rev (remdups (rev (map source_label (metadata results)))) \<and>
   distinct (format_results_sources results) \<and>
   set (format_results_sources results) = source_label ` set (metadata results) \<and>
   track_sources [] [] = [] \<and>
   track_sources [] (l # ls) = l # track_sources [] (removeAll l ls) \<and>
   track_sources [] [''A'', ''A'', ''B''] = [''A'', ''B''] \<and>
   format_results_sources duplicate_sources_results =
     [''Course A - Lesson 1'', ''Course B - Lesson 2'']"
proof -
  have "track_sources [] (l # ls) = l # track_sources [] (removeAll l ls)"
    by (simp only: track_sources_eq first_occurrences_Cons removeAll_filter_not_eq
          rev_filter [symmetric] remdups_filter [symmetric])
       (simp add: eq_commute)
  moreover have "format_results_sources duplicate_sources_results =
     [''Course A - Lesson 1'', ''Course B - Lesson 2'']"
    by (simp add: format_results_sources_def duplicate_sources_results_def source_label_def
          py_str_small)
  ultimately show ?thesis
    by (simp add: format_results_sources_def track_sources_eq)
qed

end
